theory Spec2Isabelle
  imports Main "HOL-Library.Word"
begin

section \<open>The class-file reader of \<^verbatim>\<open>jvpm/class_file.py\<close>\<close>

text \<open>
  The module reads a Java class file into a \<^verbatim>\<open>ClassFile\<close> object. All functions of the
  module take the object under construction as \<^verbatim>\<open>self\<close> and read and write four of its
  attributes: the bytes of the file, the read offset, the constant-pool index of the text
  \<^verbatim>\<open>"Code"\<close> and the accumulated bytes of the attributes with that name index. These four
  attributes are the record \<open>reader\<close>; every function returns the value of the Python
  function together with the updated record.
\<close>

subsection \<open>Bytes, slices and errors\<close>

type_synonym byte = "8 word"

text \<open>
  The exceptions the module can raise: \<^verbatim>\<open>IndexError\<close> from indexing \<^verbatim>\<open>self.data\<close> past its
  end, \<^verbatim>\<open>AttributeError\<close> from calling \<^verbatim>\<open>.copy()\<close> on the \<^verbatim>\<open>None\<close> that
  \<^verbatim>\<open>tag_table.get(tag, None)\<close> returns for a tag outside the table,
  \<^verbatim>\<open>UnicodeDecodeError\<close> from \<^verbatim>\<open>.decode("utf-8")\<close> and \<^verbatim>\<open>struct.error\<close> from
  \<^verbatim>\<open>struct.unpack\<close> on a buffer of the wrong size. None of them carries a value of the
  decoder's.
\<close>

datatype error = IndexError | AttributeError | UnicodeDecodeError | StructError

text \<open>\<^verbatim>\<open>int.from_bytes(bs, byteorder="big")\<close>: unsigned, and 0 on the empty sequence.\<close>

definition from_bytes :: "byte list \<Rightarrow> nat" where
  "from_bytes bs = foldl (\<lambda>acc b. acc * 256 + unat b) 0 bs"

text \<open>
  The slice \<^verbatim>\<open>data[lo : lo + n]\<close> for non-negative \<open>lo\<close> and \<open>n\<close>. A Python slice never
  raises: past the end of \<open>data\<close> it is shorter than \<open>n\<close>, possibly empty.
\<close>

definition py_slice :: "byte list \<Rightarrow> nat \<Rightarrow> nat \<Rightarrow> byte list" where
  "py_slice bs lo n = take n (drop lo bs)"

record reader =
  data :: "byte list"
  offset :: nat
  i_am_code :: nat
  run_code :: "byte list"

subsection \<open>The read primitives\<close>

text \<open>
  \<^verbatim>\<open>get_u1\<close> indexes \<^verbatim>\<open>self.data[self.offset]\<close>, which raises \<^verbatim>\<open>IndexError\<close> when the
  offset is not below the length (the offset is never negative); the offset is advanced
  only after the read. The value is the byte as an integer.
\<close>

definition get_u1 :: "reader \<Rightarrow> error + (nat \<times> reader)" where
  "get_u1 s =
     (if offset s < length (data s)
      then Inr (unat (data s ! offset s), s\<lparr>offset := offset s + 1\<rparr>)
      else Inl IndexError)"

text \<open>
  \<^verbatim>\<open>get_u2\<close>, \<^verbatim>\<open>get_u4\<close> and \<^verbatim>\<open>get_u8\<close> take a slice and add the width to the offset,
  whatever the slice held.
\<close>

definition get_u2 :: "reader \<Rightarrow> byte list \<times> reader" where
  "get_u2 s = (py_slice (data s) (offset s) 2, s\<lparr>offset := offset s + 2\<rparr>)"

definition get_u4 :: "reader \<Rightarrow> byte list \<times> reader" where
  "get_u4 s = (py_slice (data s) (offset s) 4, s\<lparr>offset := offset s + 4\<rparr>)"

definition get_u8 :: "reader \<Rightarrow> byte list \<times> reader" where
  "get_u8 s = (py_slice (data s) (offset s) 8, s\<lparr>offset := offset s + 8\<rparr>)"

text \<open>
  \<^verbatim>\<open>get_extended(self, length=0)\<close>: when \<^verbatim>\<open>not length\<close> holds, which is the case for the
  default and for every call that passes 0, the length is read from the next two bytes.
\<close>

definition get_extended :: "reader \<Rightarrow> nat \<Rightarrow> byte list \<times> reader" where
  "get_extended s len =
     (let (len', s1) =
            (if len = 0 then (let (v, s') = get_u2 s in (from_bytes v, s')) else (len, s))
      in (py_slice (data s1) (offset s1) len', s1\<lparr>offset := offset s1 + len'\<rparr>))"

text \<open>\<^verbatim>\<open>int.from_bytes(get_u2(self), byteorder="big")\<close>, which the module writes out at each use.\<close>

definition get_u2_int :: "reader \<Rightarrow> nat \<times> reader" where
  "get_u2_int s = (let (v, s') = get_u2 s in (from_bytes v, s'))"

subsection \<open>Text of a \<^verbatim>\<open>utf-8\<close> constant\<close>

text \<open>
  \<^verbatim>\<open>bytes.decode("utf-8")\<close> is Python's strict decoder: it returns the code points of a
  well-formed UTF-8 byte sequence (shortest form only, no surrogates, nothing above
  U+10FFFF) and raises \<^verbatim>\<open>UnicodeDecodeError\<close> on every other sequence. A Python string
  is the list of its code points.
\<close>

definition in_range :: "byte \<Rightarrow> nat \<Rightarrow> nat \<Rightarrow> bool" where
  "in_range b lo hi = (lo \<le> unat b \<and> unat b \<le> hi)"

text \<open>The second byte of a three-byte and of a four-byte sequence, by the first byte.\<close>

definition second_of_3 :: "byte \<Rightarrow> byte \<Rightarrow> bool" where
  "second_of_3 b0 b1 =
     (if unat b0 = 0xE0 then in_range b1 0xA0 0xBF
      else if unat b0 = 0xED then in_range b1 0x80 0x9F
      else in_range b1 0x80 0xBF)"

definition second_of_4 :: "byte \<Rightarrow> byte \<Rightarrow> bool" where
  "second_of_4 b0 b1 =
     (if unat b0 = 0xF0 then in_range b1 0x90 0xBF
      else if unat b0 = 0xF4 then in_range b1 0x80 0x8F
      else in_range b1 0x80 0xBF)"

fun decode_utf8 :: "byte list \<Rightarrow> nat list option" where
  "decode_utf8 [] = Some []"
| "decode_utf8 (b0 # bs) =
     (if unat b0 < 0x80 then map_option ((#) (unat b0)) (decode_utf8 bs)
      else if in_range b0 0xC2 0xDF then
        (case bs of
           b1 # r \<Rightarrow>
             if in_range b1 0x80 0xBF
             then map_option ((#) (unat b0 mod 32 * 64 + unat b1 mod 64)) (decode_utf8 r)
             else None
         | _ \<Rightarrow> None)
      else if in_range b0 0xE0 0xEF then
        (case bs of
           b1 # b2 # r \<Rightarrow>
             if second_of_3 b0 b1 \<and> in_range b2 0x80 0xBF
             then map_option
                    ((#) (unat b0 mod 16 * 4096 + unat b1 mod 64 * 64 + unat b2 mod 64))
                    (decode_utf8 r)
             else None
         | _ \<Rightarrow> None)
      else if in_range b0 0xF0 0xF4 then
        (case bs of
           b1 # b2 # b3 # r \<Rightarrow>
             if second_of_4 b0 b1 \<and> in_range b2 0x80 0xBF \<and> in_range b3 0x80 0xBF
             then map_option
                    ((#) (unat b0 mod 8 * 262144 + unat b1 mod 64 * 4096
                          + unat b2 mod 64 * 64 + unat b3 mod 64))
                    (decode_utf8 r)
             else None
         | _ \<Rightarrow> None)
      else None)"

text \<open>The string literal \<^verbatim>\<open>"Code"\<close>: the code points of C, o, d, e.\<close>

definition Code_text :: "nat list" where
  "Code_text = [67, 111, 100, 101]"

subsection \<open>The constant pool\<close>

text \<open>
  A constant is a dictionary with a \<^verbatim>\<open>"type"\<close> key and the keys of its kind; the
  constructors are named after the values of \<^verbatim>\<open>"type"\<close> and carry the other keys in the
  order of the table. Integers come from \<^verbatim>\<open>int.from_bytes\<close> and are unsigned. A \<^verbatim>\<open>Float\<close>
  or \<^verbatim>\<open>Double\<close> holds the result of \<^verbatim>\<open>struct.unpack\<close> on four or eight bytes; the
  model keeps the bytes that the floating-point value is unpacked from.
\<close>

datatype cp_info =
    Utf8 "nat list"
  | Integer nat
  | Float "byte list"
  | Long nat
  | Double "byte list"
  | Class nat
  | String nat
  | Fieldref nat nat
  | Methodref nat nat
  | InterfaceMethodref nat nat
  | NameAndType nat nat
  | MethodHandle nat nat
  | MethodType nat
  | InvokeDynamic nat nat

text \<open>
  \<^verbatim>\<open>struct.unpack(fmt, bs)\<close> for the formats \<^verbatim>\<open>"f"\<close> (size 4) and \<^verbatim>\<open>"d"\<close> (size 8):
  \<^verbatim>\<open>struct.error\<close> unless \<open>bs\<close> has exactly the size of the format.
\<close>

definition unpack :: "nat \<Rightarrow> byte list \<Rightarrow> error + byte list" where
  "unpack size_of_fmt bs = (if length bs = size_of_fmt then Inr bs else Inl StructError)"

text \<open>
  \<^verbatim>\<open>tag_table\<close> maps a tag to the dictionary of its kind, whose entries other than
  \<^verbatim>\<open>"type"\<close> are closures that read the value from \<^verbatim>\<open>self\<close>. The loop of
  \<^verbatim>\<open>get_constant_pool\<close> calls the closures in the order of the dictionary, so an entry of
  the table is the function that reads all fields of the kind in that order.
  \<^verbatim>\<open>tag_table.get(tag, None)\<close> is \<open>None\<close> for every other tag. \<open>read_u2\<close> and
  \<open>read_u2_u2\<close> are the entries of the kinds with one and with two keys that are each
  \<^verbatim>\<open>int.from_bytes(get_u2(self), byteorder="big")\<close>.
\<close>

definition read_u2_u2 :: "(nat \<Rightarrow> nat \<Rightarrow> cp_info) \<Rightarrow> reader \<Rightarrow> error + (cp_info \<times> reader)" where
  "read_u2_u2 kind s =
     (let (a, s1) = get_u2_int s; (b, s2) = get_u2_int s1 in Inr (kind a b, s2))"

definition read_u2 :: "(nat \<Rightarrow> cp_info) \<Rightarrow> reader \<Rightarrow> error + (cp_info \<times> reader)" where
  "read_u2 kind s = (let (a, s1) = get_u2_int s in Inr (kind a, s1))"

definition tag_table :: "nat \<Rightarrow> (reader \<Rightarrow> error + (cp_info \<times> reader)) option" where
  "tag_table tag =
     (if tag = 1 then Some (\<lambda>s.
        let (v, s1) = get_extended s 0 in
        (case decode_utf8 v of None \<Rightarrow> Inl UnicodeDecodeError | Some t \<Rightarrow> Inr (Utf8 t, s1)))
      else if tag = 3 then Some (\<lambda>s.
        let (v, s1) = get_u4 s in Inr (Integer (from_bytes v), s1))
      else if tag = 4 then Some (\<lambda>s.
        let (v, s1) = get_u4 s in
        (case unpack 4 v of Inl e \<Rightarrow> Inl e | Inr f \<Rightarrow> Inr (Float f, s1)))
      else if tag = 5 then Some (\<lambda>s.
        let (v, s1) = get_u8 s in Inr (Long (from_bytes v), s1))
      else if tag = 6 then Some (\<lambda>s.
        let (v, s1) = get_u8 s in
        (case unpack 8 v of Inl e \<Rightarrow> Inl e | Inr d \<Rightarrow> Inr (Double d, s1)))
      else if tag = 7 then Some (read_u2 Class)
      else if tag = 8 then Some (read_u2 String)
      else if tag = 9 then Some (read_u2_u2 Fieldref)
      else if tag = 10 then Some (read_u2_u2 Methodref)
      else if tag = 11 then Some (read_u2_u2 InterfaceMethodref)
      else if tag = 12 then Some (read_u2_u2 NameAndType)
      else if tag = 15 then Some (\<lambda>s.
        (case get_u1 s of
           Inl e \<Rightarrow> Inl e
         | Inr (k, s1) \<Rightarrow> (let (i, s2) = get_u2_int s1 in Inr (MethodHandle k i, s2))))
      else if tag = 16 then Some (read_u2 MethodType)
      else if tag = 18 then Some (read_u2_u2 InvokeDynamic)
      else None)"

text \<open>
  The pool is a dictionary whose key 0 holds \<^verbatim>\<open>self.pool_count\<close> and whose other keys hold
  constants.
\<close>

datatype pool_slot = PoolCount nat | Entry cp_info

type_synonym pool = "nat \<rightharpoonup> pool_slot"

text \<open>
  One pass through the body of \<^verbatim>\<open>for index in range(1, self.pool_count)\<close>. The body ends
  with \<^verbatim>\<open>index += 1\<close> for the tags 5 and 6; the value of \<open>index\<close> at the end of the body
  is returned with the pool and the reader.
\<close>

definition pool_body :: "nat \<Rightarrow> pool \<times> reader \<Rightarrow> error + (nat \<times> pool \<times> reader)" where
  "pool_body index ps =
     (case get_u1 (snd ps) of
        Inl e \<Rightarrow> Inl e
      | Inr (tag, s1) \<Rightarrow>
          (case tag_table tag of
             None \<Rightarrow> Inl AttributeError
           | Some read_fields \<Rightarrow>
               (case read_fields s1 of
                  Inl e \<Rightarrow> Inl e
                | Inr (const, s2) \<Rightarrow>
                    (let pool' = (fst ps)(index \<mapsto> Entry const);
                         s3 = (if tag = 1 \<and> const = Utf8 Code_text
                               then s2\<lparr>i_am_code := index\<rparr> else s2);
                         index' = (if tag = 5 \<or> tag = 6 then index + 1 else index)
                     in Inr (index', pool', s3)))))"

text \<open>
  The \<^verbatim>\<open>for\<close> statement takes each \<open>index\<close> from \<^verbatim>\<open>range(1, self.pool_count)\<close>: the next
  pass starts from the next element of the range, and the value the body left in \<open>index\<close>
  is overwritten.
\<close>

fun pool_loop :: "nat list \<Rightarrow> pool \<times> reader \<Rightarrow> error + (pool \<times> reader)" where
  "pool_loop [] ps = Inr ps"
| "pool_loop (index # rest) ps =
     (case pool_body index ps of
        Inl e \<Rightarrow> Inl e
      | Inr (index', ps') \<Rightarrow> pool_loop rest ps')"

text \<open>\<^verbatim>\<open>get_constant_pool(self)\<close>; \<open>pool_count\<close> is \<^verbatim>\<open>self.pool_count\<close>.\<close>

definition get_constant_pool :: "reader \<Rightarrow> nat \<Rightarrow> error + (pool \<times> reader)" where
  "get_constant_pool s pool_count =
     pool_loop [1..<pool_count] (Map.empty(0 \<mapsto> PoolCount pool_count), s)"

subsection \<open>Attributes\<close>

text \<open>
  The dictionary that \<^verbatim>\<open>get_an_attribute\<close> returns, with its keys \<^verbatim>\<open>"name_index"\<close>,
  \<^verbatim>\<open>"length"\<close> and \<^verbatim>\<open>"info"\<close>.
\<close>

record attribute =
  attr_name_index :: nat
  attr_length :: nat
  attr_info :: "byte list"

definition get_an_attribute :: "reader \<Rightarrow> attribute \<times> reader" where
  "get_an_attribute s =
     (let (name_index, s1) = get_u2_int s;
          (v, s2) = get_u4 s1;
          len = from_bytes v;
          (info, s3) = get_extended s2 len;
          s4 = (if name_index = i_am_code s3
                then s3\<lparr>run_code := run_code s3 @ info\<rparr> else s3)
      in (\<lparr>attr_name_index = name_index, attr_length = len, attr_info = info\<rparr>, s4))"

text \<open>
  \<^verbatim>\<open>get_attributes\<close> returns a list whose element 0 is a number, to which the loop adds
  \<^verbatim>\<open>6 + attr["length"]\<close> for each attribute, and whose other elements are the attributes in
  the order read. The list is the pair of element 0 and the rest.
\<close>

type_synonym attributes = "nat \<times> attribute list"

function attributes_loop :: "nat \<Rightarrow> nat \<Rightarrow> attributes \<times> reader \<Rightarrow> attributes \<times> reader" where
  "attributes_loop count num_attributes (attributes, s) =
     (if num_attributes < count
      then (let (attr, s') = get_an_attribute s
            in attributes_loop count (num_attributes + 1)
                 ((fst attributes + (6 + attr_length attr), snd attributes @ [attr]), s'))
      else (attributes, s))"
  by pat_completeness auto
termination
  by (relation "measure (\<lambda>(count, num_attributes, r). count - num_attributes)") auto

declare attributes_loop.simps [simp del]

definition get_attributes :: "reader \<Rightarrow> nat \<Rightarrow> attributes \<times> reader" where
  "get_attributes s count =
     (if count \<noteq> 0 then attributes_loop count 0 ((0, []), s) else ((0, []), s))"

subsection \<open>Fields and methods\<close>

text \<open>
  \<^verbatim>\<open>get_info\<close> returns a dictionary whose key 0 holds \<^verbatim>\<open>{"values_count": count}\<close> and
  whose keys 1 to \<open>count\<close> hold the dictionaries of the members. \<^verbatim>\<open>"access_flags"\<close> is
  kept as the two bytes read; the other numbers go through \<^verbatim>\<open>int.from_bytes\<close>.
\<close>

record member =
  m_access_flags :: "byte list"
  m_name_index :: nat
  m_descriptor_index :: nat
  m_attributes_count :: nat
  m_attributes :: attributes

datatype info_slot = ValuesCount nat | Member member

type_synonym info = "nat \<rightharpoonup> info_slot"

definition info_body :: "nat \<Rightarrow> info \<times> reader \<Rightarrow> info \<times> reader" where
  "info_body val r =
     (let (flags, s1) = get_u2 (snd r);
          (name_index, s2) = get_u2_int s1;
          (descriptor_index, s3) = get_u2_int s2;
          (attributes_count, s4) = get_u2_int s3;
          (attributes, s5) = get_attributes s4 attributes_count
      in ((fst r)(val \<mapsto> Member
            \<lparr>m_access_flags = flags, m_name_index = name_index,
             m_descriptor_index = descriptor_index,
             m_attributes_count = attributes_count, m_attributes = attributes\<rparr>), s5))"

fun info_loop :: "nat list \<Rightarrow> info \<times> reader \<Rightarrow> info \<times> reader" where
  "info_loop [] r = r"
| "info_loop (val # rest) r = info_loop rest (info_body val r)"

definition get_info :: "reader \<Rightarrow> nat \<Rightarrow> info \<times> reader" where
  "get_info s count =
     info_loop [1..<count + 1] (Map.empty(0 \<mapsto> ValuesCount count), s)"

subsection \<open>The class file\<close>

text \<open>
  The attributes of a \<^verbatim>\<open>ClassFile\<close> after \<^verbatim>\<open>__init__\<close>. The attributes \<^verbatim>\<open>interfaces\<close>,
  \<^verbatim>\<open>fields\<close>, \<^verbatim>\<open>methods\<close> and \<^verbatim>\<open>class_attributes\<close> are assigned under a condition:
  \<open>None\<close> is an object without the attribute.
\<close>

record ClassFile = reader +
  magic :: "byte list"
  minor :: nat
  major :: nat
  pool_count :: nat
  cp_begin :: nat
  constant_pool :: pool
  access_flags :: "byte list"
  this_class :: "byte list"
  super_class :: "byte list"
  interfaces_count :: nat
  interfaces_begin :: nat
  interfaces :: "info option"
  fields_count :: nat
  fields_begin :: nat
  fields_info :: "info option"
  methods_count :: nat
  methods_begin :: nat
  methods :: "info option"
  class_attributes_count :: nat
  class_attributes :: "attributes option"

text \<open>
  \<^verbatim>\<open>if count: self.x = get_info(self, count)\<close>, and the same with \<^verbatim>\<open>get_attributes\<close>.
\<close>

definition when_count :: "nat \<Rightarrow> (reader \<Rightarrow> nat \<Rightarrow> 'a \<times> reader) \<Rightarrow> reader \<Rightarrow> 'a option \<times> reader" where
  "when_count count get s =
     (if count \<noteq> 0 then (let (x, s') = get s count in (Some x, s')) else (None, s))"

text \<open>
  \<^verbatim>\<open>ClassFile.__init__\<close> on the bytes of the file (opening and reading the file is not
  modelled). \<^verbatim>\<open>bytearray(0x00)\<close> is the empty byte array. An exception leaves
  \<^verbatim>\<open>__init__\<close> and no object is made.
\<close>

definition ClassFile_init :: "byte list \<Rightarrow> error + ClassFile" where
  "ClassFile_init bytes =
     (let s0 = \<lparr>data = bytes, offset = 0, i_am_code = 0, run_code = []\<rparr>;
          (magic_v, s1) = get_u4 s0;
          (minor_v, s2) = get_u2_int s1;
          (major_v, s3) = get_u2_int s2;
          (pool_count_v, s4) = get_u2_int s3;
          cp_begin_v = offset s4
      in case get_constant_pool s4 pool_count_v of
           Inl e \<Rightarrow> Inl e
         | Inr (pool_v, s5) \<Rightarrow>
             (let (access_flags_v, s6) = get_u2 s5;
                  (this_class_v, s7) = get_u2 s6;
                  (super_class_v, s8) = get_u2 s7;
                  (interfaces_count_v, s9) = get_u2_int s8;
                  interfaces_begin_v = offset s9;
                  (interfaces_v, s10) = when_count interfaces_count_v get_info s9;
                  (fields_count_v, s11) = get_u2_int s10;
                  fields_begin_v = offset s11;
                  (fields_v, s12) = when_count fields_count_v get_info s11;
                  (methods_count_v, s13) = get_u2_int s12;
                  methods_begin_v = offset s13;
                  (methods_v, s14) = when_count methods_count_v get_info s13;
                  (class_attributes_count_v, s15) = get_u2_int s14;
                  (class_attributes_v, s16) =
                     when_count class_attributes_count_v get_attributes s15
              in Inr \<lparr>data = data s16, offset = offset s16, i_am_code = i_am_code s16,
                      run_code = run_code s16,
                      magic = magic_v, minor = minor_v, major = major_v,
                      pool_count = pool_count_v, cp_begin = cp_begin_v,
                      constant_pool = pool_v,
                      access_flags = access_flags_v, this_class = this_class_v,
                      super_class = super_class_v,
                      interfaces_count = interfaces_count_v,
                      interfaces_begin = interfaces_begin_v, interfaces = interfaces_v,
                      fields_count = fields_count_v, fields_begin = fields_begin_v,
                      fields_info = fields_v,
                      methods_count = methods_count_v, methods_begin = methods_begin_v,
                      methods = methods_v,
                      class_attributes_count = class_attributes_count_v,
                      class_attributes = class_attributes_v\<rparr>))"

subsection \<open>What the statements observe\<close>

text \<open>
  The indices from \<^verbatim>\<open>range(1, pool_count)\<close>, in order, at which a pool holds a
  \<^verbatim>\<open>utf-8\<close> constant with the text \<^verbatim>\<open>"Code"\<close>.
\<close>

definition code_indices :: "pool \<Rightarrow> nat \<Rightarrow> nat list" where
  "code_indices pool n = filter (\<lambda>i. pool i = Some (Entry (Utf8 Code_text))) [1..<n]"

text \<open>
  The bytes at the offset are read as the constant \<^verbatim>\<open>Utf8 "Code"\<close>: the byte at the offset
  is the tag 1, and the bytes that the two-byte length after it takes from the buffer are
  the four bytes of \<^verbatim>\<open>Code\<close>.
\<close>

definition code_entry_at :: "reader \<Rightarrow> bool" where
  "code_entry_at s =
     (offset s < length (data s) \<and> unat (data s ! offset s) = 1
      \<and> take (from_bytes (take 2 (drop (offset s + 1) (data s))))
            (drop (offset s + 3) (data s)) = [0x43, 0x6F, 0x64, 0x65])"

text \<open>The sum of \<^verbatim>\<open>6 + attr["length"]\<close> over a list of attributes.\<close>

definition span_of :: "attribute list \<Rightarrow> nat" where
  "span_of attrs = sum_list (map (\<lambda>a. 6 + attr_length a) attrs)"

text \<open>
  The \<^verbatim>\<open>"info"\<close> bytes, one after the other, of the attributes of a list whose
  \<^verbatim>\<open>"name_index"\<close> is \<open>sentinel\<close>.
\<close>

definition code_bytes :: "nat \<Rightarrow> attribute list \<Rightarrow> byte list" where
  "code_bytes sentinel attrs =
     concat (map attr_info (filter (\<lambda>a. attr_name_index a = sentinel) attrs))"

text \<open>
  The attributes of the members of a table at the keys \<open>vals\<close>, in that order, and all
  attributes of a class file in the order \<^verbatim>\<open>__init__\<close> reads them.
\<close>

definition member_attributes :: "info \<Rightarrow> nat list \<Rightarrow> attribute list" where
  "member_attributes tbl vals =
     concat (map (\<lambda>val. case tbl val of Some (Member m) \<Rightarrow> snd (m_attributes m) | _ \<Rightarrow> [])
               vals)"

definition all_attributes :: "ClassFile \<Rightarrow> attribute list" where
  "all_attributes cf =
     (case interfaces cf of None \<Rightarrow> []
      | Some tbl \<Rightarrow> member_attributes tbl [1..<interfaces_count cf + 1])
     @ (case fields_info cf of None \<Rightarrow> []
        | Some tbl \<Rightarrow> member_attributes tbl [1..<fields_count cf + 1])
     @ (case methods cf of None \<Rightarrow> []
        | Some tbl \<Rightarrow> member_attributes tbl [1..<methods_count cf + 1])
     @ (case class_attributes cf of None \<Rightarrow> [] | Some attrs \<Rightarrow> snd attrs)"

subsection \<open>Class files used as inputs\<close>

text \<open>
  The class file of the second scenario of the specification's testable properties: magic
  and version, \<^verbatim>\<open>pool_count = 2\<close> with the one constant \<^verbatim>\<open>Utf8 "Code"\<close>, access flags,
  this and super class, no interfaces, no fields, one method with one attribute whose
  name index is 1, whose length is 3 and whose bytes are 1, 2, 3, and no class attributes.
\<close>

definition minimal_code_class :: "byte list" where
  "minimal_code_class =
     [0xCA, 0xFE, 0xBA, 0xBE, 0, 0, 0, 0x34, 0, 2,
      1, 0, 4, 0x43, 0x6F, 0x64, 0x65,
      0, 0x21, 0, 0, 0, 0,
      0, 0,
      0, 0,
      0, 1,
      0, 1, 0, 1, 0, 1, 0, 1,
      0, 1, 0, 0, 0, 3, 1, 2, 3,
      0, 0]"

text \<open>
  A class file with \<^verbatim>\<open>pool_count = 5\<close>: the \<^verbatim>\<open>Long\<close> 42 at index 1, which takes the
  indices 1 and 2 in the class-file format, \<^verbatim>\<open>Utf8 "A"\<close> at index 3 and \<^verbatim>\<open>Class 3\<close> at
  index 4; then the access flags \<^verbatim>\<open>0x0021\<close>, this class 4, super class 0 and no
  interfaces, fields, methods or attributes.
\<close>

definition long_class :: "byte list" where
  "long_class =
     [0xCA, 0xFE, 0xBA, 0xBE, 0, 0, 0, 0x34, 0, 5,
      5, 0, 0, 0, 0, 0, 0, 0, 42,
      1, 0, 1, 0x41,
      7, 0, 3,
      0, 0x21, 0, 4, 0, 0,
      0, 0,
      0, 0,
      0, 0,
      0, 0]"

text \<open>
  A class file that implements one interface: the constants \<^verbatim>\<open>Utf8 "A"\<close>, \<^verbatim>\<open>Class 1\<close>,
  \<^verbatim>\<open>Utf8 "I"\<close>, \<^verbatim>\<open>Class 3\<close>; this class 2; \<^verbatim>\<open>interfaces_count = 1\<close> with the interface
  index 4; no fields, methods or attributes.
\<close>

definition interface_class :: "byte list" where
  "interface_class =
     [0xCA, 0xFE, 0xBA, 0xBE, 0, 0, 0, 0x34, 0, 5,
      1, 0, 1, 0x41,
      7, 0, 1,
      1, 0, 1, 0x49,
      7, 0, 3,
      0, 0x21, 0, 2, 0, 0,
      0, 1,
      0, 4,
      0, 0,
      0, 0,
      0, 0]"

text \<open>A class file with an empty pool and no interfaces, fields, methods or attributes.\<close>

definition empty_class :: "byte list" where
  "empty_class =
     [0xCA, 0xFE, 0xBA, 0xBE, 0, 0, 0, 0x34, 0, 1,
      0, 0x21, 0, 0, 0, 0,
      0, 0,
      0, 0,
      0, 0,
      0, 0]"

text \<open>
  A class file with the one constant \<^verbatim>\<open>Utf8 "A"\<close> and one class attribute whose name
  index is 0, whose length is 2 and whose bytes are \<^verbatim>\<open>0xAB\<close>, \<^verbatim>\<open>0xCD\<close>.
\<close>

definition no_code_class :: "byte list" where
  "no_code_class =
     [0xCA, 0xFE, 0xBA, 0xBE, 0, 0, 0, 0x34, 0, 2,
      1, 0, 1, 0x41,
      0, 0x21, 0, 0, 0, 0,
      0, 0,
      0, 0,
      0, 0,
      0, 1,
      0, 0, 0, 0, 0, 2, 0xAB, 0xCD]"

text \<open>
  A class file with the two constants \<^verbatim>\<open>Utf8 "Code"\<close> at the indices 1 and 2; one
  method with two attributes, the first with the name index 1 and the bytes
  \<^verbatim>\<open>0x11\<close>, \<^verbatim>\<open>0x22\<close>, the second with the name index 2 and the bytes 1, 2, 3; and one
  class attribute with the name index 2 and the byte \<^verbatim>\<open>0x2A\<close>.
\<close>

definition two_code_class :: "byte list" where
  "two_code_class =
     [0xCA, 0xFE, 0xBA, 0xBE, 0, 0, 0, 0x34, 0, 3,
      1, 0, 4, 0x43, 0x6F, 0x64, 0x65,
      1, 0, 4, 0x43, 0x6F, 0x64, 0x65,
      0, 0x21, 0, 0, 0, 0,
      0, 0,
      0, 0,
      0, 1,
      0, 1, 0, 1, 0, 1, 0, 2,
      0, 1, 0, 0, 0, 2, 0x11, 0x22,
      0, 2, 0, 0, 0, 3, 1, 2, 3,
      0, 1,
      0, 2, 0, 0, 0, 1, 0x2A]"

text \<open>
  A class file of 43 bytes with the constant \<^verbatim>\<open>Utf8 "Deprecated"\<close> and, at the offset 37,
  one class attribute with the name index 1 and the length 0, as the class-file format has
  it for a deprecated class.
\<close>

definition deprecated_class :: "byte list" where
  "deprecated_class =
     [0xCA, 0xFE, 0xBA, 0xBE, 0, 0, 0, 0x34, 0, 2,
      1, 0, 10, 0x44, 0x65, 0x70, 0x72, 0x65, 0x63, 0x61, 0x74, 0x65, 0x64,
      0, 0x21, 0, 0, 0, 0,
      0, 0,
      0, 0,
      0, 0,
      0, 1,
      0, 1, 0, 0, 0, 0]"

section \<open>Properties of the read primitives\<close>

lemmas reader_defs = get_u1_def get_u2_def get_u4_def get_u8_def get_extended_def
  get_u2_int_def py_slice_def

text \<open>
  C3, as the code has it. \<^verbatim>\<open>get_u1\<close> raises \<^verbatim>\<open>IndexError\<close> when no byte is left at the
  offset, and that is the only error a read primitive raises. \<^verbatim>\<open>get_u2\<close>, \<^verbatim>\<open>get_u4\<close>,
  \<^verbatim>\<open>get_u8\<close> and \<^verbatim>\<open>get_extended\<close> with a length other than 0 never fail: they return the
  bytes of the buffer from the offset on, at most as many as asked for, so fewer (or none)
  when the buffer is truncated. \<^verbatim>\<open>get_extended\<close> without a length does the same with the
  length it finds in the next two bytes, or in as many of them as are left.
\<close>

theorem C3_truncated_reads:
  "(length (data s) \<le> offset s \<longrightarrow> get_u1 s = Inl IndexError)
   \<and> (get_u1 s = Inl e \<longrightarrow> e = IndexError \<and> length (data s) \<le> offset s)
   \<and> fst (get_u2 s) = take 2 (drop (offset s) (data s))
   \<and> fst (get_u4 s) = take 4 (drop (offset s) (data s))
   \<and> fst (get_u8 s) = take 8 (drop (offset s) (data s))
   \<and> (n \<noteq> 0 \<longrightarrow> fst (get_extended s n) = take n (drop (offset s) (data s)))
   \<and> fst (get_extended s 0)
       = take (from_bytes (take 2 (drop (offset s) (data s)))) (drop (offset s + 2) (data s))
   \<and> length (fst (get_u2 s)) = min 2 (length (data s) - offset s)
   \<and> length (fst (get_u4 s)) = min 4 (length (data s) - offset s)
   \<and> length (fst (get_u8 s)) = min 8 (length (data s) - offset s)
   \<and> (n \<noteq> 0 \<longrightarrow> length (fst (get_extended s n)) = min n (length (data s) - offset s))"
  by (auto simp: reader_defs split: if_splits)

theorem C3_truncated_reads_witness:
  "get_u1 \<lparr>data = [1], offset = 1, i_am_code = 0, run_code = []\<rparr> = Inl IndexError
   \<and> fst (get_u4 \<lparr>data = [1], offset = 1, i_am_code = 0, run_code = []\<rparr>) = []
   \<and> fst (get_extended \<lparr>data = [1], offset = 1, i_am_code = 0, run_code = []\<rparr> 3) = []"
  using C3_truncated_reads
    [of "\<lparr>data = [1], offset = 1, i_am_code = 0, run_code = []\<rparr>" IndexError 3]
  by simp

text \<open>
  C3 as stated fails: on a buffer with one byte left, \<^verbatim>\<open>get_u2\<close> and \<^verbatim>\<open>get_u4\<close> return
  that one byte, \<^verbatim>\<open>get_u8\<close> past the end returns no byte, and \<^verbatim>\<open>get_extended\<close> returns
  one byte where the length prefix says five; none of them raises.
\<close>

theorem C3_short_read_counterexample:
  "get_u2 \<lparr>data = [1], offset = 0, i_am_code = 0, run_code = []\<rparr>
     = ([1], \<lparr>data = [1], offset = 2, i_am_code = 0, run_code = []\<rparr>)
   \<and> get_u4 \<lparr>data = [1], offset = 0, i_am_code = 0, run_code = []\<rparr>
     = ([1], \<lparr>data = [1], offset = 4, i_am_code = 0, run_code = []\<rparr>)
   \<and> get_u8 \<lparr>data = [1], offset = 1, i_am_code = 0, run_code = []\<rparr>
     = ([], \<lparr>data = [1], offset = 9, i_am_code = 0, run_code = []\<rparr>)
   \<and> get_extended \<lparr>data = [0, 5, 9], offset = 0, i_am_code = 0, run_code = []\<rparr> 0
     = ([9], \<lparr>data = [0, 5, 9], offset = 7, i_am_code = 0, run_code = []\<rparr>)"
  by (simp add: reader_defs from_bytes_def)

text \<open>
  C6, as the code has it. No read primitive changes the buffer or moves the offset back.
  \<^verbatim>\<open>get_u1\<close> adds 1 to the offset when a byte is left and raises otherwise, so it keeps the
  offset within the buffer. \<^verbatim>\<open>get_u2\<close>, \<^verbatim>\<open>get_u4\<close>, \<^verbatim>\<open>get_u8\<close> and \<^verbatim>\<open>get_extended\<close>
  add the width asked for (for \<^verbatim>\<open>get_extended\<close> without a length: 2 and the number in the
  next two bytes) whether or not that many bytes are left, and never raise; the offset
  stays within the buffer exactly when the width fits into the bytes left.
\<close>

theorem C6_offset_advance:
  "(get_u1 s = Inr (v, s') \<longrightarrow>
      offset s' = offset s + 1 \<and> data s' = data s \<and> offset s' \<le> length (data s'))
   \<and> (length (data s) \<le> offset s \<longrightarrow> get_u1 s = Inl IndexError)
   \<and> offset (snd (get_u2 s)) = offset s + 2 \<and> data (snd (get_u2 s)) = data s
   \<and> offset (snd (get_u4 s)) = offset s + 4 \<and> data (snd (get_u4 s)) = data s
   \<and> offset (snd (get_u8 s)) = offset s + 8 \<and> data (snd (get_u8 s)) = data s
   \<and> (n \<noteq> 0 \<longrightarrow> offset (snd (get_extended s n)) = offset s + n)
   \<and> offset (snd (get_extended s 0))
       = offset s + 2 + from_bytes (take 2 (drop (offset s) (data s)))
   \<and> data (snd (get_extended s n)) = data s
   \<and> (offset (snd (get_u2 s)) \<le> length (data (snd (get_u2 s)))
        \<longleftrightarrow> offset s + 2 \<le> length (data s))
   \<and> (offset (snd (get_u4 s)) \<le> length (data (snd (get_u4 s)))
        \<longleftrightarrow> offset s + 4 \<le> length (data s))
   \<and> (offset (snd (get_u8 s)) \<le> length (data (snd (get_u8 s)))
        \<longleftrightarrow> offset s + 8 \<le> length (data s))
   \<and> (n \<noteq> 0 \<longrightarrow>
        (offset (snd (get_extended s n)) \<le> length (data (snd (get_extended s n)))
          \<longleftrightarrow> offset s + n \<le> length (data s)))"
  by (auto simp: reader_defs Let_def split: if_splits)

theorem C6_offset_advance_witness:
  "get_u1 \<lparr>data = [202, 254], offset = 0, i_am_code = 0, run_code = []\<rparr>
     = Inr (202, \<lparr>data = [202, 254], offset = 1, i_am_code = 0, run_code = []\<rparr>)
   \<and> get_u1 \<lparr>data = [202, 254], offset = 2, i_am_code = 0, run_code = []\<rparr>
     = Inl IndexError
   \<and> offset (snd (get_extended
         \<lparr>data = [202, 254], offset = 0, i_am_code = 0, run_code = []\<rparr> 2)) = 2
   \<and> offset (snd (get_extended
         \<lparr>data = [202, 254], offset = 2, i_am_code = 0, run_code = []\<rparr> 2)) = 4"
  using
    C6_offset_advance
      [of "\<lparr>data = [202, 254], offset = 0, i_am_code = 0, run_code = []\<rparr>" 202
          "\<lparr>data = [202, 254], offset = 1, i_am_code = 0, run_code = []\<rparr>" 2]
    C6_offset_advance
      [of "\<lparr>data = [202, 254], offset = 2, i_am_code = 0, run_code = []\<rparr>" 0
          "\<lparr>data = [202, 254], offset = 2, i_am_code = 0, run_code = []\<rparr>" 2]
  by (simp add: get_u1_def)

text \<open>
  C6 as stated fails: with the offset at 0 in a buffer of one byte, \<^verbatim>\<open>get_u4\<close> returns
  the byte and leaves the offset at 4, past the end of the buffer.
\<close>

theorem C6_offset_past_end_counterexample:
  "offset \<lparr>data = [202], offset = 0, i_am_code = 0, run_code = []\<rparr>
      \<le> length (data \<lparr>data = [202], offset = 0, i_am_code = 0, run_code = []\<rparr>)
   \<and> get_u4 \<lparr>data = [202], offset = 0, i_am_code = 0, run_code = []\<rparr>
     = ([202], \<lparr>data = [202], offset = 4, i_am_code = 0, run_code = []\<rparr>)
   \<and> \<not> offset (snd (get_u4 \<lparr>data = [202], offset = 0, i_am_code = 0, run_code = []\<rparr>))
      \<le> length (data (snd (get_u4
            \<lparr>data = [202], offset = 0, i_am_code = 0, run_code = []\<rparr>)))"
  by (simp add: reader_defs)

section \<open>Properties of the attribute reader\<close>

lemma get_u2_fields [simp]:
  "i_am_code (snd (get_u2 s)) = i_am_code s"
  "run_code (snd (get_u2 s)) = run_code s"
  "data (snd (get_u2 s)) = data s"
  by (simp_all add: reader_defs)

lemma get_u4_fields [simp]:
  "i_am_code (snd (get_u4 s)) = i_am_code s"
  "run_code (snd (get_u4 s)) = run_code s"
  "data (snd (get_u4 s)) = data s"
  by (simp_all add: reader_defs)

lemma get_u2_int_fields [simp]:
  "i_am_code (snd (get_u2_int s)) = i_am_code s"
  "run_code (snd (get_u2_int s)) = run_code s"
  "data (snd (get_u2_int s)) = data s"
  by (simp_all add: reader_defs)

text \<open>
  C4 at an attribute with the declared length 0, here followed by the bytes
  \<^verbatim>\<open>00 02 AA BB CC\<close> of whatever comes next in the file. \<^verbatim>\<open>get_an_attribute\<close> passes
  the length 0 to \<^verbatim>\<open>get_extended\<close>, which takes it for a missing length and reads the
  next two bytes as the length: the attribute has two bytes of \<^verbatim>\<open>"info"\<close> under the
  length 0, and the offset moves by 10 where \<open>6 + 0\<close> is claimed.
\<close>

theorem C4_zero_length_attribute:
  "get_an_attribute \<lparr>data = [0, 7, 0, 0, 0, 0, 0, 2, 0xAA, 0xBB, 0xCC], offset = 0,
                      i_am_code = 1, run_code = []\<rparr>
   = (\<lparr>attr_name_index = 7, attr_length = 0, attr_info = [0xAA, 0xBB]\<rparr>,
      \<lparr>data = [0, 7, 0, 0, 0, 0, 0, 2, 0xAA, 0xBB, 0xCC], offset = 10,
       i_am_code = 1, run_code = []\<rparr>)"
  by (simp add: get_an_attribute_def reader_defs from_bytes_def)

text \<open>
  For every other declared length the offset moves by 6 and the length, and the
  \<^verbatim>\<open>"info"\<close> has the declared length when the buffer holds that many bytes.
\<close>

lemma get_an_attribute_offset:
  assumes "attr_length (fst (get_an_attribute s)) \<noteq> 0"
  shows "offset (snd (get_an_attribute s))
           = offset s + 6 + attr_length (fst (get_an_attribute s))"
  using assms
  by (simp add: get_an_attribute_def reader_defs Let_def split: prod.splits if_splits)

lemma get_an_attribute_span:
  assumes "get_an_attribute s = (a, s')" and "attr_length a \<noteq> 0"
    and "offset s + 6 + attr_length a \<le> length (data s)"
  shows "length (attr_info a) = attr_length a \<and> offset s' = offset s + 6 + attr_length a"
  using assms
  by (auto simp: get_an_attribute_def reader_defs Let_def split: if_splits)

lemma get_an_attribute_fields:
  "i_am_code (snd (get_an_attribute s)) = i_am_code s"
  "data (snd (get_an_attribute s)) = data s"
  "run_code (snd (get_an_attribute s)) =
     run_code s @ (if attr_name_index (fst (get_an_attribute s)) = i_am_code s
                   then attr_info (fst (get_an_attribute s)) else [])"
  by (simp_all add: get_an_attribute_def reader_defs Let_def split: prod.splits)

lemma get_an_attribute_values:
  "attr_name_index (fst (get_an_attribute s)) = from_bytes (take 2 (drop (offset s) (data s)))"
  "attr_length (fst (get_an_attribute s)) = from_bytes (take 4 (drop (offset s + 2) (data s)))"
  "attr_length (fst (get_an_attribute s)) \<noteq> 0 \<Longrightarrow>
     attr_info (fst (get_an_attribute s))
       = take (attr_length (fst (get_an_attribute s))) (drop (offset s + 6) (data s))"
  by (simp_all add: get_an_attribute_def reader_defs Let_def add.commute
        split: prod.splits if_splits)

lemma code_bytes_append [simp]:
  "code_bytes c (xs @ ys) = code_bytes c xs @ code_bytes c ys"
  by (simp add: code_bytes_def)

lemma code_bytes_Nil [simp]: "code_bytes c [] = []"
  by (simp add: code_bytes_def)

subsection \<open>The loop of \<^verbatim>\<open>get_attributes\<close>\<close>

lemma attributes_loop_span:
  assumes "fst a = span_of (snd a)"
  shows "fst (fst (attributes_loop count n (a, s)))
           = span_of (snd (fst (attributes_loop count n (a, s))))"
  using assms
proof (induction count n "(a, s)" arbitrary: a s rule: attributes_loop.induct)
  case (1 count n a s)
  show ?case
  proof (cases "n < count")
    case True
    obtain attr s' where g: "get_an_attribute s = (attr, s')"
      by (cases "get_an_attribute s")
    have "fst (fst (attributes_loop count (n + 1)
                 ((fst a + (6 + attr_length attr), snd a @ [attr]), s')))
          = span_of (snd (fst (attributes_loop count (n + 1)
                 ((fst a + (6 + attr_length attr), snd a @ [attr]), s'))))"
      using True g "1.prems" by (intro "1.hyps") (simp_all add: span_of_def)
    then show ?thesis
      using True g by (simp add: attributes_loop.simps [of count n])
  next
    case False
    then show ?thesis
      using "1.prems" by (simp add: attributes_loop.simps [of count n])
  qed
qed

lemma attributes_loop_length:
  "length (snd (fst (attributes_loop count n (a, s)))) = length (snd a) + (count - n)"
proof (induction count n "(a, s)" arbitrary: a s rule: attributes_loop.induct)
  case (1 count n a s)
  show ?case
  proof (cases "n < count")
    case True
    obtain attr s' where g: "get_an_attribute s = (attr, s')"
      by (cases "get_an_attribute s")
    have "length (snd (fst (attributes_loop count (n + 1)
                 ((fst a + (6 + attr_length attr), snd a @ [attr]), s'))))
          = length (snd a @ [attr]) + (count - (n + 1))"
      using True g by (subst "1.hyps") simp_all
    then show ?thesis
      using True g by (simp add: attributes_loop.simps [of count n])
  next
    case False
    then show ?thesis
      by (simp add: attributes_loop.simps [of count n])
  qed
qed

text \<open>
  What the loop does to the reader: the attributes it appends are \<open>new\<close>; the
  \<^verbatim>\<open>"Code"\<close> index and the buffer stay, the accumulator grows by the bytes of the new
  attributes whose name index is the \<^verbatim>\<open>"Code"\<close> index, and the offset grows by the sum of
  \<open>6 + length\<close> when no new attribute has the length 0.
\<close>

lemma attributes_loop_reader:
  "i_am_code (snd (attributes_loop count n (a, s))) = i_am_code s
   \<and> data (snd (attributes_loop count n (a, s))) = data s
   \<and> (\<exists>new. snd (fst (attributes_loop count n (a, s))) = snd a @ new
        \<and> run_code (snd (attributes_loop count n (a, s)))
            = run_code s @ code_bytes (i_am_code s) new
        \<and> (list_all (\<lambda>x. attr_length x \<noteq> 0) new \<longrightarrow>
             offset (snd (attributes_loop count n (a, s))) = offset s + span_of new))"
proof (induction count n "(a, s)" arbitrary: a s rule: attributes_loop.induct)
  case (1 count n a s)
  show ?case
  proof (cases "n < count")
    case True
    obtain attr s1 where g: "get_an_attribute s = (attr, s1)"
      by (cases "get_an_attribute s")
    let ?a1 = "(fst a + (6 + attr_length attr), snd a @ [attr])"
    let ?r = "attributes_loop count (n + 1) (?a1, s1)"
    have step: "attributes_loop count n (a, s) = ?r"
      using True g by (simp add: attributes_loop.simps [of count n])
    from get_an_attribute_fields [of s] g have s1:
      "i_am_code s1 = i_am_code s" "data s1 = data s"
      "run_code s1 = run_code s
         @ (if attr_name_index attr = i_am_code s then attr_info attr else [])"
      by simp_all
    have IH: "i_am_code (snd ?r) = i_am_code s1 \<and> data (snd ?r) = data s1
      \<and> (\<exists>new. snd (fst ?r) = snd ?a1 @ new
            \<and> run_code (snd ?r) = run_code s1 @ code_bytes (i_am_code s1) new
            \<and> (list_all (\<lambda>x. attr_length x \<noteq> 0) new \<longrightarrow>
                 offset (snd ?r) = offset s1 + span_of new))"
      using True g by (intro "1.hyps") simp_all
    then obtain new where new: "snd (fst ?r) = snd ?a1 @ new"
      "run_code (snd ?r) = run_code s1 @ code_bytes (i_am_code s1) new"
      "list_all (\<lambda>x. attr_length x \<noteq> 0) new \<longrightarrow> offset (snd ?r) = offset s1 + span_of new"
      by blast
    have "snd (fst ?r) = snd a @ (attr # new)"
      using new(1) by simp
    moreover have "run_code (snd ?r) = run_code s @ code_bytes (i_am_code s) (attr # new)"
      using new(2) s1 by (simp add: code_bytes_def)
    moreover have "list_all (\<lambda>x. attr_length x \<noteq> 0) (attr # new) \<longrightarrow>
        offset (snd ?r) = offset s + span_of (attr # new)"
      using new(3) get_an_attribute_offset [of s] g by (simp add: span_of_def)
    ultimately have "\<exists>new'. snd (fst ?r) = snd a @ new'
        \<and> run_code (snd ?r) = run_code s @ code_bytes (i_am_code s) new'
        \<and> (list_all (\<lambda>x. attr_length x \<noteq> 0) new' \<longrightarrow>
             offset (snd ?r) = offset s + span_of new')"
      by blast
    moreover have "i_am_code (snd ?r) = i_am_code s" "data (snd ?r) = data s"
      using IH s1 by simp_all
    ultimately show ?thesis
      unfolding step by simp
  next
    case False
    then show ?thesis
      by (simp add: attributes_loop.simps [of count n] code_bytes_def span_of_def)
  qed
qed

lemma get_attributes_reader:
  "i_am_code (snd (get_attributes s count)) = i_am_code s
   \<and> data (snd (get_attributes s count)) = data s
   \<and> run_code (snd (get_attributes s count))
       = run_code s @ code_bytes (i_am_code s) (snd (fst (get_attributes s count)))
   \<and> (list_all (\<lambda>x. attr_length x \<noteq> 0) (snd (fst (get_attributes s count))) \<longrightarrow>
        offset (snd (get_attributes s count))
          = offset s + span_of (snd (fst (get_attributes s count))))"
  using attributes_loop_reader [of count 0 "(0, [])" s]
  by (auto simp: get_attributes_def code_bytes_def span_of_def)

text \<open>
  Element 0 of the list that \<^verbatim>\<open>get_attributes\<close> returns is the sum of \<open>6 + length\<close>
  over the attributes of the list, which are \<open>count\<close> many; for the count 0 the function
  returns the list with the number 0 alone and leaves the reader as it is.
\<close>

lemma get_attributes_span:
  "fst (fst (get_attributes s count))
     = sum_list (map (\<lambda>a. 6 + attr_length a) (snd (fst (get_attributes s count))))
   \<and> length (snd (fst (get_attributes s count))) = count
   \<and> get_attributes s 0 = ((0, []), s)"
  using attributes_loop_span [of "(0, [])" count 0 s]
    attributes_loop_length [of count 0 "(0, [])" s]
  by (simp add: get_attributes_def span_of_def)

text \<open>
  C8. The number that \<^verbatim>\<open>get_attributes\<close> keeps in element 0 is the sum of
  \<open>6 + length\<close> over the \<open>count\<close> attributes of the list, 0 for the count 0, and it is
  the number of bytes by which the offset has moved when no attribute of the list has the
  declared length 0. With a declared length 0 it is not: on one attribute with the name
  index 7 and the length 0, followed by the bytes \<^verbatim>\<open>00 02 AA BB CC\<close>, the number kept is 6
  and the offset has moved by 10; and on \<open>deprecated_class\<close>, where the class attributes
  start at the offset 37 (the methods begin at 35, and two bytes hold the count), the
  number kept is 6 and the offset ends at 45, two bytes past the end of the file.
\<close>

theorem C8_span_and_offset:
  "get_attributes \<lparr>data = [0, 7, 0, 0, 0, 0, 0, 2, 0xAA, 0xBB, 0xCC], offset = 0,
                    i_am_code = 1, run_code = []\<rparr> 1
     = ((6, [\<lparr>attr_name_index = 7, attr_length = 0, attr_info = [0xAA, 0xBB]\<rparr>]),
        \<lparr>data = [0, 7, 0, 0, 0, 0, 0, 2, 0xAA, 0xBB, 0xCC], offset = 10,
         i_am_code = 1, run_code = []\<rparr>)
   \<and> (\<exists>cf. ClassFile_init deprecated_class = Inr cf
         \<and> length (data cf) = 43
         \<and> methods_begin cf = 35
         \<and> class_attributes_count cf = 1
         \<and> class_attributes cf
             = Some (6, [\<lparr>attr_name_index = 1, attr_length = 0, attr_info = []\<rparr>])
         \<and> offset cf = 45)
   \<and> fst (fst (get_attributes s count))
       = sum_list (map (\<lambda>a. 6 + attr_length a) (snd (fst (get_attributes s count))))
   \<and> length (snd (fst (get_attributes s count))) = count
   \<and> get_attributes s 0 = ((0, []), s)
   \<and> (list_all (\<lambda>a. attr_length a \<noteq> 0) (snd (fst (get_attributes s count))) \<longrightarrow>
        offset (snd (get_attributes s count))
          = offset s + fst (fst (get_attributes s count)))"
proof -
  have "get_attributes \<lparr>data = [0, 7, 0, 0, 0, 0, 0, 2, 0xAA, 0xBB, 0xCC], offset = 0,
                    i_am_code = 1, run_code = []\<rparr> 1
     = ((6, [\<lparr>attr_name_index = 7, attr_length = 0, attr_info = [0xAA, 0xBB]\<rparr>]),
        \<lparr>data = [0, 7, 0, 0, 0, 0, 0, 2, 0xAA, 0xBB, 0xCC], offset = 10,
         i_am_code = 1, run_code = []\<rparr>)"
    by (simp add: get_attributes_def attributes_loop.simps get_an_attribute_def reader_defs
        from_bytes_def)
  moreover have "\<exists>cf. ClassFile_init deprecated_class = Inr cf
         \<and> length (data cf) = 43
         \<and> methods_begin cf = 35
         \<and> class_attributes_count cf = 1
         \<and> class_attributes cf
             = Some (6, [\<lparr>attr_name_index = 1, attr_length = 0, attr_info = []\<rparr>])
         \<and> offset cf = 45"
    by (simp add: deprecated_class_def ClassFile_init_def get_constant_pool_def pool_body_def
        tag_table_def Code_text_def when_count_def get_attributes_def
        get_an_attribute_def from_bytes_def Let_def upt_rec attributes_loop.simps
        reader_defs)
  moreover have "list_all (\<lambda>a. attr_length a \<noteq> 0) (snd (fst (get_attributes s count))) \<longrightarrow>
        offset (snd (get_attributes s count))
          = offset s + fst (fst (get_attributes s count))"
    using get_attributes_reader [of s count] get_attributes_span [of s count]
    by (simp add: span_of_def)
  ultimately show ?thesis
    using get_attributes_span [of s count] by blast
qed

text \<open>
  An instance without a length 0: two attributes of the lengths 2 and 3 are 17 bytes, the
  number kept is 17 and the offset has moved by 17.
\<close>

theorem C8_span_and_offset_witness:
  "list_all (\<lambda>a. attr_length a \<noteq> 0)
     (snd (fst (get_attributes
        \<lparr>data = [0, 1, 0, 0, 0, 2, 0x11, 0x22, 0, 2, 0, 0, 0, 3, 1, 2, 3], offset = 0,
         i_am_code = 2, run_code = []\<rparr> 2)))
   \<and> fst (fst (get_attributes
        \<lparr>data = [0, 1, 0, 0, 0, 2, 0x11, 0x22, 0, 2, 0, 0, 0, 3, 1, 2, 3], offset = 0,
         i_am_code = 2, run_code = []\<rparr> 2)) = 17
   \<and> offset (snd (get_attributes
        \<lparr>data = [0, 1, 0, 0, 0, 2, 0x11, 0x22, 0, 2, 0, 0, 0, 3, 1, 2, 3], offset = 0,
         i_am_code = 2, run_code = []\<rparr> 2)) = 17"
proof -
  let ?s = "\<lparr>data = [0, 1, 0, 0, 0, 2, 0x11, 0x22, 0, 2, 0, 0, 0, 3, 1, 2, 3], offset = 0,
         i_am_code = 2, run_code = []\<rparr>"
  have ev: "fst (get_attributes ?s 2)
      = (17, [\<lparr>attr_name_index = 1, attr_length = 2, attr_info = [0x11, 0x22]\<rparr>,
              \<lparr>attr_name_index = 2, attr_length = 3, attr_info = [1, 2, 3]\<rparr>])"
    by (simp add: get_attributes_def attributes_loop.simps get_an_attribute_def reader_defs
        from_bytes_def)
  from C8_span_and_offset [of ?s 2] show ?thesis
    unfolding ev by simp
qed

section \<open>Properties of the constant-pool reader\<close>

lemmas decode_defs = ClassFile_init_def get_constant_pool_def pool_body_def tag_table_def
  read_u2_def read_u2_u2_def unpack_def Code_text_def in_range_def second_of_3_def
  second_of_4_def when_count_def get_info_def info_body_def get_attributes_def
  get_an_attribute_def from_bytes_def Let_def upt_rec attributes_loop.simps

lemma pool_loop_append:
  "pool_loop (xs @ ys) ps =
     (case pool_loop xs ps of Inl e \<Rightarrow> Inl e | Inr ps' \<Rightarrow> pool_loop ys ps')"
  by (induction xs arbitrary: ps) (auto split: sum.splits)

lemma tag_table_None:
  "tag_table tag = None \<longleftrightarrow> tag \<notin> {1, 3, 4, 5, 6, 7, 8, 9, 10, 11, 12, 15, 16, 18}"
  by (simp add: tag_table_def)

lemma pool_body_unknown_tag:
  assumes "offset s < length (data s)" and "tag_table (unat (data s ! offset s)) = None"
  shows "pool_body index (pool, s) = Inl AttributeError"
  using assms by (simp add: pool_body_def get_u1_def)

lemma upt_split:
  assumes "1 \<le> k" and "k < n"
  shows "[1..<n] = [1..<k] @ k # [Suc k..<n]"
proof -
  have "[1..<k + (n - k)] = [1..<k] @ [k..<k + (n - k)]"
    using assms(1) by (rule upt_add_eq_append)
  moreover have "k + (n - k) = n"
    using assms(2) by simp
  moreover have "[k..<n] = k # [Suc k..<n]"
    using assms(2) by (rule upt_conv_Cons)
  ultimately show ?thesis by simp
qed

text \<open>
  C5, as the code has it. When the loop of \<^verbatim>\<open>get_constant_pool\<close> has read the constants
  of the indices below \<open>k\<close>, index \<open>k\<close> is still in the range, and the byte at the offset
  is not one of the fourteen tags of the table, then \<^verbatim>\<open>get_constant_pool\<close> fails. The
  error is the \<^verbatim>\<open>AttributeError\<close> of \<^verbatim>\<open>None.copy()\<close>; it holds neither the tag nor an
  offset.
\<close>

theorem C5_unknown_tag_fails:
  assumes "1 \<le> k" and "k < n"
    and "pool_loop [1..<k] (Map.empty(0 \<mapsto> PoolCount n), s) = Inr (pool', s')"
    and "offset s' < length (data s')"
    and "unat (data s' ! offset s') \<notin> {1, 3, 4, 5, 6, 7, 8, 9, 10, 11, 12, 15, 16, 18}"
  shows "get_constant_pool s n = Inl AttributeError"
proof -
  have body: "pool_body k (pool', s') = Inl AttributeError"
    using assms(4,5) by (intro pool_body_unknown_tag) (simp_all add: tag_table_None)
  have "[1..<n] = [1..<k] @ k # [Suc k..<n]"
    using assms(1,2) by (rule upt_split)
  then have "get_constant_pool s n =
      pool_loop ([1..<k] @ k # [Suc k..<n]) (Map.empty(0 \<mapsto> PoolCount n), s)"
    unfolding get_constant_pool_def by (rule arg_cong)
  also have "\<dots> = pool_loop (k # [Suc k..<n]) (pool', s')"
    unfolding pool_loop_append assms(3) by simp
  also have "\<dots> = Inl AttributeError"
    using body by simp
  finally show ?thesis .
qed

text \<open>
  An instance: a pool of two constants whose first is \<^verbatim>\<open>Class 9\<close> and whose second
  starts with the tag 2.
\<close>

theorem C5_unknown_tag_fails_witness:
  "get_constant_pool
     \<lparr>data = [7, 0, 9, 2, 0, 0], offset = 0, i_am_code = 0, run_code = []\<rparr> 3
   = Inl AttributeError"
proof -
  let ?s = "\<lparr>data = [7, 0, 9, 2, 0, 0], offset = 0, i_am_code = 0, run_code = []\<rparr>"
  let ?s' = "\<lparr>data = [7, 0, 9, 2, 0, 0], offset = 3, i_am_code = 0, run_code = []\<rparr>"
  have "pool_loop [1..<2] (Map.empty(0 \<mapsto> PoolCount 3), ?s)
          = Inr (Map.empty(0 \<mapsto> PoolCount 3, 1 \<mapsto> Entry (Class 9)), ?s')"
    by (simp add: upt_rec pool_body_def tag_table_def read_u2_def reader_defs from_bytes_def)
  from C5_unknown_tag_fails [OF _ _ this] show ?thesis by simp
qed

text \<open>
  C5 as stated fails: the tag 2 read at offset 0 and the tag 13 read at offset 3 give the
  same error, a value without a tag and without an offset.
\<close>

theorem C5_same_error_counterexample:
  "get_constant_pool \<lparr>data = [2, 0, 0], offset = 0, i_am_code = 0, run_code = []\<rparr> 2
     = Inl AttributeError
   \<and> get_constant_pool \<lparr>data = [7, 0, 9, 13], offset = 0, i_am_code = 0, run_code = []\<rparr> 3
     = Inl AttributeError"
  by (simp add: get_constant_pool_def upt_rec pool_body_def tag_table_def read_u2_def
      reader_defs from_bytes_def)

text \<open>An error of the constant pool is the error of \<^verbatim>\<open>__init__\<close>.\<close>

lemma ClassFile_init_pool_error:
  assumes "get_constant_pool \<lparr>data = bytes, offset = 10, i_am_code = 0, run_code = []\<rparr>
             (from_bytes (take 2 (drop 8 bytes))) = Inl e"
  shows "ClassFile_init bytes = Inl e"
  using assms by (simp add: ClassFile_init_def reader_defs)

text \<open>
  C1 on \<open>long_class\<close>, a class file whose \<^verbatim>\<open>Long\<close> at index 1 is followed by
  \<^verbatim>\<open>Utf8 "A"\<close> at index 3 and \<^verbatim>\<open>Class 3\<close> at index 4. The first three passes of the loop
  put the \<^verbatim>\<open>Long\<close> at 1, the \<^verbatim>\<open>Utf8\<close> at 2 and the \<^verbatim>\<open>Class\<close> at 3 and leave the offset at
  26, the end of the pool: bytes are read for the index after the \<^verbatim>\<open>Long\<close>, which holds
  a constant. The range has a fourth index, for which the loop reads the first byte of
  the access flags as a tag, so \<^verbatim>\<open>__init__\<close> fails on this class file.
\<close>

theorem C1_index_after_long:
  "(\<exists>pool s'.
      pool_loop [1..<4]
        (Map.empty(0 \<mapsto> PoolCount 5),
         \<lparr>data = long_class, offset = 10, i_am_code = 0, run_code = []\<rparr>) = Inr (pool, s')
      \<and> pool 1 = Some (Entry (Long 42))
      \<and> pool 2 = Some (Entry (Utf8 [65]))
      \<and> pool 3 = Some (Entry (Class 3))
      \<and> offset s' = 26)
   \<and> ClassFile_init long_class = Inl AttributeError"
  by (simp add: long_class_def decode_defs reader_defs)

subsection \<open>The \<^verbatim>\<open>"Code"\<close> index\<close>

text \<open>
  The text \<^verbatim>\<open>"Code"\<close> is decoded from its four bytes and from no other bytes: a code
  point below 128 comes from one byte of the same value.
\<close>

lemma mod_window:
  fixes n :: nat
  assumes "a * m \<le> n" and "n < a * m + m"
  shows "n mod m = n - a * m"
proof -
  have "n = (n - a * m) + a * m"
    using assms(1) by simp
  then have "n mod m = ((n - a * m) + a * m) mod m"
    by (rule arg_cong)
  also have "\<dots> = (n - a * m) mod m"
    by (rule mod_mult_self1)
  also have "\<dots> = n - a * m"
    using assms by (intro mod_less) linarith
  finally show ?thesis .
qed

lemma mod_bounds:
  fixes n :: nat
  shows "194 \<le> n \<Longrightarrow> n \<le> 223 \<Longrightarrow> 2 \<le> n mod 32"
    and "160 \<le> n \<Longrightarrow> n \<le> 191 \<Longrightarrow> 32 \<le> n mod 64"
    and "225 \<le> n \<Longrightarrow> n \<le> 239 \<Longrightarrow> 1 \<le> n mod 16"
    and "144 \<le> n \<Longrightarrow> n \<le> 191 \<Longrightarrow> 16 \<le> n mod 64"
    and "241 \<le> n \<Longrightarrow> n \<le> 244 \<Longrightarrow> 1 \<le> n mod 8"
  using mod_window [of 6 32 n] mod_window [of 2 64 n] mod_window [of 14 16 n]
    mod_window [of 30 8 n]
  by simp_all

lemma decode_utf8_ascii_head:
  assumes "decode_utf8 (b0 # bs) = Some (c # cs)" and "c < 128"
  shows "unat b0 = c \<and> decode_utf8 bs = Some cs"
proof -
  consider (one) "unat b0 < 0x80"
    | (two) "\<not> unat b0 < 0x80" "in_range b0 0xC2 0xDF"
    | (three) "\<not> unat b0 < 0x80" "\<not> in_range b0 0xC2 0xDF" "in_range b0 0xE0 0xEF"
    | (four) "\<not> unat b0 < 0x80" "\<not> in_range b0 0xC2 0xDF" "\<not> in_range b0 0xE0 0xEF"
        "in_range b0 0xF0 0xF4"
    | (none) "\<not> unat b0 < 0x80" "\<not> in_range b0 0xC2 0xDF" "\<not> in_range b0 0xE0 0xEF"
        "\<not> in_range b0 0xF0 0xF4"
    by blast
  then show ?thesis
  proof cases
    case one
    with assms(1) show ?thesis by auto
  next
    case two
    from two(2) have "2 \<le> unat b0 mod 32"
      by (simp add: in_range_def mod_bounds(1))
    then have ge: "\<not> unat b0 mod 32 * 64 + k < 128" for k
      by simp
    from two assms show ?thesis
      by (auto simp: ge split: list.splits if_splits)
  next
    case three
    have ge: "\<not> unat b0 mod 16 * 4096 + unat b1 mod 64 * 64 + k < 128"
      if "second_of_3 b0 b1" for b1 k
    proof (cases "unat b0 = 0xE0")
      case True
      with that have "32 \<le> unat b1 mod 64"
        by (simp add: second_of_3_def in_range_def mod_bounds(2))
      then show ?thesis by simp
    next
      case False
      with three(3) have "225 \<le> unat b0" "unat b0 \<le> 239"
        by (simp_all add: in_range_def)
      then have "1 \<le> unat b0 mod 16"
        by (rule mod_bounds(3))
      then show ?thesis by simp
    qed
    from three assms show ?thesis
      by (auto simp: ge split: list.splits if_splits)
  next
    case four
    have ge: "\<not> unat b0 mod 8 * 262144 + unat b1 mod 64 * 4096 + j + k < 128"
      if "second_of_4 b0 b1" for b1 j k
    proof (cases "unat b0 = 0xF0")
      case True
      with that have "16 \<le> unat b1 mod 64"
        by (simp add: second_of_4_def in_range_def mod_bounds(4))
      then show ?thesis by simp
    next
      case False
      with four(4) have "241 \<le> unat b0" "unat b0 \<le> 244"
        by (simp_all add: in_range_def)
      then have "1 \<le> unat b0 mod 8"
        by (rule mod_bounds(5))
      then show ?thesis by simp
    qed
    from four assms show ?thesis
      by (auto simp: ge split: list.splits if_splits)
  next
    case none
    with assms(1) show ?thesis by simp
  qed
qed

lemma decode_utf8_Code:
  "decode_utf8 v = Some Code_text \<longleftrightarrow> v = [0x43, 0x6F, 0x64, 0x65]"
proof
  assume "v = [0x43, 0x6F, 0x64, 0x65]"
  then show "decode_utf8 v = Some Code_text"
    by (simp add: Code_text_def)
next
  assume d: "decode_utf8 v = Some Code_text"
  then obtain b0 v1 where v: "v = b0 # v1"
    by (cases v) (auto simp: Code_text_def)
  from decode_utf8_ascii_head [of b0 v1 67 "[111, 100, 101]"] d v
  have 0: "unat b0 = 67" "decode_utf8 v1 = Some [111, 100, 101]"
    by (simp_all add: Code_text_def)
  then obtain b1 v2 where v1: "v1 = b1 # v2"
    by (cases v1) auto
  from decode_utf8_ascii_head [of b1 v2 111 "[100, 101]"] 0(2) v1
  have 1: "unat b1 = 111" "decode_utf8 v2 = Some [100, 101]"
    by simp_all
  then obtain b2 v3 where v2: "v2 = b2 # v3"
    by (cases v2) auto
  from decode_utf8_ascii_head [of b2 v3 100 "[101]"] 1(2) v2
  have 2: "unat b2 = 100" "decode_utf8 v3 = Some [101]"
    by simp_all
  then obtain b3 v4 where v3: "v3 = b3 # v4"
    by (cases v3) auto
  from decode_utf8_ascii_head [of b3 v4 101 "[]"] 2(2) v3
  have 3: "unat b3 = 101" "decode_utf8 v4 = Some []"
    by simp_all
  have v4: "v4 = []"
  proof (cases v4)
    case Nil then show ?thesis .
  next
    case (Cons x xs)
    with 3(2) show ?thesis
      by (auto split: if_splits list.splits)
  qed
  have "b0 = 0x43" "b1 = 0x6F" "b2 = 0x64" "b3 = 0x65"
    using 0(1) 1(1) 2(1) 3(1) by (simp_all add: word_unat_eq_iff)
  with v v1 v2 v3 v4 show "v = [0x43, 0x6F, 0x64, 0x65]"
    by simp
qed

text \<open>One pass of the loop at a tag 1, and what a pass at another tag leaves.\<close>

lemma get_extended_prefixed:
  "get_extended s 0 =
     (take (from_bytes (take 2 (drop (offset s) (data s)))) (drop (offset s + 2) (data s)),
      s\<lparr>offset := offset s + 2 + from_bytes (take 2 (drop (offset s) (data s)))\<rparr>)"
  by (simp add: reader_defs)

lemma pool_body_tag_1:
  assumes "offset s < length (data s)" and "unat (data s ! offset s) = 1"
  shows "pool_body index (pool, s) =
     (case decode_utf8 (take (from_bytes (take 2 (drop (offset s + 1) (data s))))
                          (drop (offset s + 3) (data s))) of
        None \<Rightarrow> Inl UnicodeDecodeError
      | Some t \<Rightarrow>
          Inr (index, pool(index \<mapsto> Entry (Utf8 t)),
               s\<lparr>offset := offset s + 3 + from_bytes (take 2 (drop (offset s + 1) (data s))),
                 i_am_code := if t = Code_text then index else i_am_code s\<rparr>))"
  using assms
  by (simp add: pool_body_def get_u1_def tag_table_def get_extended_prefixed
           numeral_3_eq_3 split: option.splits)

lemma pool_body_at_code:
  assumes "code_entry_at s"
  shows "\<exists>s'. pool_body index (pool, s)
            = Inr (index, pool(index \<mapsto> Entry (Utf8 Code_text)), s')
          \<and> i_am_code s' = index \<and> run_code s' = run_code s"
  using assms pool_body_tag_1 [of s index pool]
  by (simp add: code_entry_at_def Code_text_def)

lemma tag_table_not_1:
  assumes "tag_table tag = Some rd" and "rd s = Inr (c, s')" and "tag \<noteq> 1"
  shows "c \<noteq> Utf8 t \<and> i_am_code s' = i_am_code s"
  using assms
  by (auto simp: tag_table_def read_u2_def read_u2_u2_def unpack_def reader_defs Let_def
           split: if_splits option.splits sum.splits prod.splits)

lemma pool_body_code_entry:
  assumes "pool_body index (pool, s) = Inr (index', pool', s')"
  shows "(pool' index = Some (Entry (Utf8 Code_text)) \<longleftrightarrow> code_entry_at s)
       \<and> i_am_code s' = (if code_entry_at s then index else i_am_code s)"
proof -
  from assms have in_buf: "offset s < length (data s)"
    by (auto simp: pool_body_def get_u1_def split: if_splits)
  show ?thesis
  proof (cases "unat (data s ! offset s) = 1")
    case True
    let ?v = "take (from_bytes (take 2 (drop (offset s + 1) (data s))))
                (drop (offset s + 3) (data s))"
    from assms pool_body_tag_1 [OF in_buf True, of index pool]
    obtain t where t: "decode_utf8 ?v = Some t" "pool' = pool(index \<mapsto> Entry (Utf8 t))"
      "i_am_code s' = (if t = Code_text then index else i_am_code s)"
      by (auto split: option.splits)
    have "t = Code_text \<longleftrightarrow> ?v = [0x43, 0x6F, 0x64, 0x65]"
      using t(1) decode_utf8_Code [of ?v] by auto
    then have "t = Code_text \<longleftrightarrow> code_entry_at s"
      using in_buf True by (simp add: code_entry_at_def)
    with t(2,3) show ?thesis by simp
  next
    case False
    from assms in_buf obtain rd c s2 where
      tt: "tag_table (unat (data s ! offset s)) = Some rd"
      and rd: "rd (s\<lparr>offset := offset s + 1\<rparr>) = Inr (c, s2)"
      and res: "pool' = pool(index \<mapsto> Entry c)" "s' = s2"
      using False
      by (auto simp: pool_body_def get_u1_def Let_def
               split: sum.splits option.splits prod.splits if_splits)
    from tag_table_not_1 [OF tt rd False] res have
      "pool' index \<noteq> Some (Entry (Utf8 Code_text))" "i_am_code s' = i_am_code s"
      by simp_all
    moreover have "\<not> code_entry_at s"
      using False by (simp add: code_entry_at_def)
    ultimately show ?thesis by simp
  qed
qed

lemma tag_table_reads:
  assumes "tag_table tag = Some rd" and "rd s = Inr (c, s')"
  shows "i_am_code s' = i_am_code s \<and> run_code s' = run_code s \<and> data s' = data s
         \<and> ((\<exists>t. c = Utf8 t) \<longrightarrow> tag = 1)"
  using assms
  by (auto simp: tag_table_def read_u2_def read_u2_u2_def unpack_def reader_defs Let_def
           split: if_splits option.splits sum.splits prod.splits)

lemma pool_body_Inr:
  assumes "pool_body index (pool, s) = Inr (index', pool', s')"
  shows "\<exists>c. pool' = pool(index \<mapsto> Entry c)
           \<and> i_am_code s' = (if c = Utf8 Code_text then index else i_am_code s)
           \<and> run_code s' = run_code s \<and> data s' = data s"
proof -
  from assms obtain tag s1 rd c s2 where
    u1: "get_u1 s = Inr (tag, s1)" and tt: "tag_table tag = Some rd"
    and rd: "rd s1 = Inr (c, s2)"
    and res: "pool' = pool(index \<mapsto> Entry c)"
       "s' = (if tag = 1 \<and> c = Utf8 Code_text then s2\<lparr>i_am_code := index\<rparr> else s2)"
    by (auto simp: pool_body_def Let_def split: sum.splits option.splits prod.splits)
  from u1 have s1: "i_am_code s1 = i_am_code s" "run_code s1 = run_code s" "data s1 = data s"
    by (auto simp: get_u1_def split: if_splits)
  from tag_table_reads [OF tt rd] s1 res show ?thesis
    by auto
qed

lemma pool_loop_sentinel:
  assumes "pool_loop idxs (pool, s) = Inr (pool', s')" and "distinct idxs"
  shows "(\<forall>j. j \<notin> set idxs \<longrightarrow> pool' j = pool j)
       \<and> i_am_code s' =
           (if filter (\<lambda>i. pool' i = Some (Entry (Utf8 Code_text))) idxs = [] then i_am_code s
            else last (filter (\<lambda>i. pool' i = Some (Entry (Utf8 Code_text))) idxs))
       \<and> run_code s' = run_code s \<and> data s' = data s"
  using assms
proof (induction idxs arbitrary: pool s)
  case Nil
  then show ?case by simp
next
  case (Cons i rest)
  from Cons.prems(1) obtain i' pool1 s1 where
    body: "pool_body i (pool, s) = Inr (i', pool1, s1)"
    and loop: "pool_loop rest (pool1, s1) = Inr (pool', s')"
    by (auto split: sum.splits)
  from pool_body_Inr [OF body] obtain c where
    c: "pool1 = pool(i \<mapsto> Entry c)"
       "i_am_code s1 = (if c = Utf8 Code_text then i else i_am_code s)"
       "run_code s1 = run_code s" "data s1 = data s"
    by blast
  from Cons.prems(2) have d: "distinct rest" "i \<notin> set rest" by simp_all
  note IH = Cons.IH [OF loop d(1)]
  from IH d(2) c(1) have at_i: "pool' i = Some (Entry c)" by simp
  let ?P = "\<lambda>i. pool' i = Some (Entry (Utf8 Code_text))"
  have f: "filter ?P (i # rest)
             = (if c = Utf8 Code_text then i # filter ?P rest else filter ?P rest)"
    using at_i by simp
  have "\<forall>j. j \<notin> set (i # rest) \<longrightarrow> pool' j = pool j"
    using IH c(1) by simp
  moreover have "i_am_code s' = (if filter ?P (i # rest) = [] then i_am_code s
            else last (filter ?P (i # rest)))"
    using IH c(2) unfolding f by simp
  moreover have "run_code s' = run_code s \<and> data s' = data s"
    using IH c(3,4) by simp
  ultimately show ?case by blast
qed

lemma get_constant_pool_fields:
  assumes "get_constant_pool s n = Inr (pool, s')"
  shows "i_am_code s' =
           (if code_indices pool n = [] then i_am_code s else last (code_indices pool n))"
    and "run_code s' = run_code s" and "data s' = data s"
  using pool_loop_sentinel [OF assms [unfolded get_constant_pool_def]]
  by (simp_all add: code_indices_def)

section \<open>Properties of the member tables and of the class file\<close>

lemma info_body_fields:
  "\<exists>m. fst (info_body val (tbl, s)) = tbl(val \<mapsto> Member m)
     \<and> i_am_code (snd (info_body val (tbl, s))) = i_am_code s
     \<and> data (snd (info_body val (tbl, s))) = data s
     \<and> run_code (snd (info_body val (tbl, s)))
         = run_code s @ code_bytes (i_am_code s) (snd (m_attributes m))"
proof -
  obtain flags s1 where 1: "get_u2 s = (flags, s1)" by (cases "get_u2 s")
  obtain ni s2 where 2: "get_u2_int s1 = (ni, s2)" by (cases "get_u2_int s1")
  obtain di s3 where 3: "get_u2_int s2 = (di, s3)" by (cases "get_u2_int s2")
  obtain ac s4 where 4: "get_u2_int s3 = (ac, s4)" by (cases "get_u2_int s3")
  obtain attrs s5 where 5: "get_attributes s4 ac = (attrs, s5)"
    by (cases "get_attributes s4 ac")
  have s4: "i_am_code s4 = i_am_code s" "run_code s4 = run_code s" "data s4 = data s"
    using get_u2_fields [of s] get_u2_int_fields [of s1] get_u2_int_fields [of s2]
      get_u2_int_fields [of s3] 1 2 3 4 by simp_all
  from get_attributes_reader [of s4 ac] 5 s4 have s5:
    "i_am_code s5 = i_am_code s" "data s5 = data s"
    "run_code s5 = run_code s @ code_bytes (i_am_code s) (snd attrs)"
    by simp_all
  let ?m = "\<lparr>m_access_flags = flags, m_name_index = ni, m_descriptor_index = di,
             m_attributes_count = ac, m_attributes = attrs\<rparr>"
  have body: "info_body val (tbl, s) = (tbl(val \<mapsto> Member ?m), s5)"
    using 1 2 3 4 5 by (simp add: info_body_def)
  show ?thesis
    unfolding body using s5 by (intro exI [of _ ?m]) simp
qed

lemma info_loop_reader:
  assumes "distinct vals"
  shows "(\<forall>j. j \<notin> set vals \<longrightarrow> fst (info_loop vals (tbl, s)) j = tbl j)
       \<and> i_am_code (snd (info_loop vals (tbl, s))) = i_am_code s
       \<and> data (snd (info_loop vals (tbl, s))) = data s
       \<and> run_code (snd (info_loop vals (tbl, s)))
           = run_code s @ code_bytes (i_am_code s)
               (member_attributes (fst (info_loop vals (tbl, s))) vals)"
  using assms
proof (induction vals arbitrary: tbl s)
  case Nil
  then show ?case by (simp add: member_attributes_def)
next
  case (Cons val rest)
  obtain tbl1 s1 where b: "info_body val (tbl, s) = (tbl1, s1)"
    by (cases "info_body val (tbl, s)")
  from info_body_fields [of val tbl s] b obtain m where m:
    "tbl1 = tbl(val \<mapsto> Member m)" "i_am_code s1 = i_am_code s" "data s1 = data s"
    "run_code s1 = run_code s @ code_bytes (i_am_code s) (snd (m_attributes m))"
    by auto
  from Cons.prems have d: "distinct rest" "val \<notin> set rest" by simp_all
  note IH = Cons.IH [OF d(1), of tbl1 s1]
  let ?r = "info_loop rest (tbl1, s1)"
  have step: "info_loop (val # rest) (tbl, s) = ?r"
    using b by simp
  from IH d(2) have "fst ?r val = tbl1 val"
    by blast
  then have at_val: "fst ?r val = Some (Member m)"
    using m(1) by simp
  have "member_attributes (fst ?r) (val # rest)
          = snd (m_attributes m) @ member_attributes (fst ?r) rest"
    using at_val by (simp add: member_attributes_def)
  then have "run_code (snd ?r)
      = run_code s @ code_bytes (i_am_code s) (member_attributes (fst ?r) (val # rest))"
    using IH m(2,3,4) by simp
  moreover have "\<forall>j. j \<notin> set (val # rest) \<longrightarrow> fst ?r j = tbl j"
  proof (intro allI impI)
    fix j assume j: "j \<notin> set (val # rest)"
    with IH have "fst ?r j = tbl1 j" by simp
    with j m(1) show "fst ?r j = tbl j" by simp
  qed
  moreover have "i_am_code (snd ?r) = i_am_code s" "data (snd ?r) = data s"
    using IH m(2,3,4) by simp_all
  ultimately show ?case
    unfolding step by simp
qed

lemma get_info_reader:
  "i_am_code (snd (get_info s count)) = i_am_code s
   \<and> data (snd (get_info s count)) = data s
   \<and> run_code (snd (get_info s count))
       = run_code s @ code_bytes (i_am_code s)
           (member_attributes (fst (get_info s count)) [1..<count + 1])"
  using info_loop_reader [of "[1..<count + 1]" "Map.empty(0 \<mapsto> ValuesCount count)" s]
  by (simp add: get_info_def)

lemma when_count_get_info:
  assumes "when_count count get_info s = (x, s')"
  shows "i_am_code s' = i_am_code s \<and> data s' = data s
       \<and> run_code s' = run_code s @ code_bytes (i_am_code s)
            (case x of None \<Rightarrow> [] | Some tbl \<Rightarrow> member_attributes tbl [1..<count + 1])"
  using assms get_info_reader [of s count]
  by (auto simp: when_count_def Let_def split: if_splits prod.splits)

lemma when_count_get_attributes:
  assumes "when_count count get_attributes s = (x, s')"
  shows "i_am_code s' = i_am_code s \<and> data s' = data s
       \<and> run_code s' = run_code s @ code_bytes (i_am_code s)
            (case x of None \<Rightarrow> [] | Some attrs \<Rightarrow> snd attrs)"
  using assms get_attributes_reader [of s count]
  by (auto simp: when_count_def Let_def split: if_splits prod.splits)

text \<open>
  C2 on \<open>interface_class\<close>, a class file of 40 bytes that implements one interface. The
  interfaces begin at offset 32, and \<^verbatim>\<open>fields_count\<close> is read from the offset 40 on, so
  that the fields begin at 42: \<^verbatim>\<open>get_info\<close> has read one member of eight bytes, made of
  the interface index, \<^verbatim>\<open>fields_count\<close>, \<^verbatim>\<open>methods_count\<close> and the count of the class
  attributes, where the claim has two bytes read. The counts that follow are read past
  the end of the file, as 0, and \<^verbatim>\<open>__init__\<close> ends with the offset 46.
\<close>

theorem C2_interfaces_read_as_members:
  "\<exists>cf tbl. ClassFile_init interface_class = Inr cf
     \<and> length (data cf) = 40
     \<and> interfaces_count cf = 1
     \<and> interfaces_begin cf = 32
     \<and> interfaces cf = Some tbl
     \<and> tbl 1 = Some (Member \<lparr>m_access_flags = [0, 4], m_name_index = 0,
                              m_descriptor_index = 0, m_attributes_count = 0,
                              m_attributes = (0, [])\<rparr>)
     \<and> fields_begin cf = 42
     \<and> offset cf = 46"
  by (simp add: interface_class_def decode_defs reader_defs)

text \<open>
  C7: \<^verbatim>\<open>__init__\<close> succeeds on \<open>minimal_code_class\<close>; the pool holds \<^verbatim>\<open>Utf8 "Code"\<close> at
  index 1, which is the \<^verbatim>\<open>"Code"\<close> index; the list of the one method holds the number 9
  and one attribute, with the name index 1, the length 3 and the bytes 1, 2, 3; and the
  accumulator holds the bytes 1, 2, 3.
\<close>

theorem C7_minimal_code_class:
  "\<exists>cf ms m.
     ClassFile_init minimal_code_class = Inr cf
     \<and> pool_count cf = 2
     \<and> constant_pool cf 1 = Some (Entry (Utf8 Code_text))
     \<and> i_am_code cf = 1
     \<and> interfaces_count cf = 0 \<and> fields_count cf = 0
     \<and> methods_count cf = 1
     \<and> methods cf = Some ms \<and> ms 1 = Some (Member m)
     \<and> m_attributes_count m = 1
     \<and> m_attributes m
         = (9, [\<lparr>attr_name_index = 1, attr_length = 3, attr_info = [1, 2, 3]\<rparr>])
     \<and> methods_begin cf + 8 + 9 + 2 = offset cf
     \<and> run_code cf = [1, 2, 3]"
  by (simp add: minimal_code_class_def decode_defs reader_defs)

text \<open>
  C9: when \<^verbatim>\<open>__init__\<close> returns, a count of interfaces, fields, methods or class
  attributes that is 0 leaves the object without the attribute of that section.
\<close>

theorem C9_zero_count_no_member:
  assumes "ClassFile_init bytes = Inr cf"
  shows "(interfaces_count cf = 0 \<longrightarrow> interfaces cf = None)
       \<and> (fields_count cf = 0 \<longrightarrow> fields_info cf = None)
       \<and> (methods_count cf = 0 \<longrightarrow> methods cf = None)
       \<and> (class_attributes_count cf = 0 \<longrightarrow> class_attributes cf = None)"
  using assms
  by (auto simp: ClassFile_init_def when_count_def Let_def
           split: sum.splits prod.splits if_splits)

text \<open>An instance: the class file with empty sections.\<close>

theorem C9_zero_count_no_member_witness:
  "\<exists>cf. ClassFile_init empty_class = Inr cf
     \<and> interfaces_count cf = 0 \<and> interfaces cf = None
     \<and> fields_count cf = 0 \<and> fields_info cf = None
     \<and> methods_count cf = 0 \<and> methods cf = None
     \<and> class_attributes_count cf = 0 \<and> class_attributes cf = None"
proof -
  have "\<exists>cf. ClassFile_init empty_class = Inr cf
     \<and> interfaces_count cf = 0 \<and> fields_count cf = 0
     \<and> methods_count cf = 0 \<and> class_attributes_count cf = 0"
    by (simp add: empty_class_def decode_defs reader_defs)
  then obtain cf where cf: "ClassFile_init empty_class = Inr cf"
    "interfaces_count cf = 0" "fields_count cf = 0"
    "methods_count cf = 0" "class_attributes_count cf = 0"
    by blast
  from C9_zero_count_no_member [OF cf(1)] cf show ?thesis
    by blast
qed

text \<open>With two constants \<^verbatim>\<open>Utf8 "Code"\<close> the index of the second is the one kept.\<close>

lemma two_code_constants:
  "\<exists>pool s'.
     get_constant_pool
       \<lparr>data = [1, 0, 4, 0x43, 0x6F, 0x64, 0x65, 1, 0, 4, 0x43, 0x6F, 0x64, 0x65],
        offset = 0, i_am_code = 0, run_code = []\<rparr> 3 = Inr (pool, s')
     \<and> pool 1 = Some (Entry (Utf8 Code_text)) \<and> pool 2 = Some (Entry (Utf8 Code_text))
     \<and> i_am_code s' = 2"
  by (simp add: decode_defs reader_defs)

text \<open>
  When \<^verbatim>\<open>__init__\<close> returns, the \<^verbatim>\<open>"Code"\<close> index is 0 if no index of the pool holds
  \<^verbatim>\<open>Utf8 "Code"\<close>, and the last such index otherwise; and the accumulator holds, in the
  order read, the bytes of exactly those attributes of the class file whose name index is
  the \<^verbatim>\<open>"Code"\<close> index.
\<close>

lemma ClassFile_init_code:
  assumes "ClassFile_init bytes = Inr cf"
  shows "i_am_code cf =
           (if code_indices (constant_pool cf) (pool_count cf) = [] then 0
            else last (code_indices (constant_pool cf) (pool_count cf)))
       \<and> run_code cf = code_bytes (i_am_code cf) (all_attributes cf)"
proof -
  let ?s0 = "\<lparr>data = bytes, offset = 0, i_am_code = 0, run_code = []\<rparr>"
  obtain magic_v s1 where 1: "get_u4 ?s0 = (magic_v, s1)" by (cases "get_u4 ?s0")
  obtain minor_v s2 where 2: "get_u2_int s1 = (minor_v, s2)" by (cases "get_u2_int s1")
  obtain major_v s3 where 3: "get_u2_int s2 = (major_v, s3)" by (cases "get_u2_int s2")
  obtain pc s4 where 4: "get_u2_int s3 = (pc, s4)" by (cases "get_u2_int s3")
  from assms 1 2 3 4 obtain pool_v s5 where 5: "get_constant_pool s4 pc = Inr (pool_v, s5)"
    by (auto simp: ClassFile_init_def split: sum.splits)
  obtain af s6 where 6: "get_u2 s5 = (af, s6)" by (cases "get_u2 s5")
  obtain tc s7 where 7: "get_u2 s6 = (tc, s7)" by (cases "get_u2 s6")
  obtain sc s8 where 8: "get_u2 s7 = (sc, s8)" by (cases "get_u2 s7")
  obtain ic s9 where 9: "get_u2_int s8 = (ic, s9)" by (cases "get_u2_int s8")
  obtain ifs s10 where 10: "when_count ic get_info s9 = (ifs, s10)"
    by (cases "when_count ic get_info s9")
  obtain fc s11 where 11: "get_u2_int s10 = (fc, s11)" by (cases "get_u2_int s10")
  obtain fs s12 where 12: "when_count fc get_info s11 = (fs, s12)"
    by (cases "when_count fc get_info s11")
  obtain mc s13 where 13: "get_u2_int s12 = (mc, s13)" by (cases "get_u2_int s12")
  obtain ms s14 where 14: "when_count mc get_info s13 = (ms, s14)"
    by (cases "when_count mc get_info s13")
  obtain cc s15 where 15: "get_u2_int s14 = (cc, s15)" by (cases "get_u2_int s14")
  obtain cas s16 where 16: "when_count cc get_attributes s15 = (cas, s16)"
    by (cases "when_count cc get_attributes s15")
  from assms 1 2 3 4 5 6 7 8 9 10 11 12 13 14 15 16 have cf:
    "i_am_code cf = i_am_code s16" "run_code cf = run_code s16"
    "constant_pool cf = pool_v" "pool_count cf = pc"
    "interfaces cf = ifs" "interfaces_count cf = ic"
    "fields_info cf = fs" "fields_count cf = fc"
    "methods cf = ms" "methods_count cf = mc"
    "class_attributes cf = cas"
    by (auto simp: ClassFile_init_def Let_def)
  have s4: "i_am_code s4 = 0" "run_code s4 = []"
    using get_u4_fields [of ?s0] get_u2_int_fields [of s1] get_u2_int_fields [of s2]
      get_u2_int_fields [of s3] 1 2 3 4 by simp_all
  let ?c = "if code_indices pool_v pc = [] then 0 else last (code_indices pool_v pc)"
  have s5: "i_am_code s5 = ?c" "run_code s5 = []"
    using get_constant_pool_fields [OF 5] s4 by simp_all
  have s9: "i_am_code s9 = ?c" "run_code s9 = []"
    using get_u2_fields [of s5] get_u2_fields [of s6] get_u2_fields [of s7]
      get_u2_int_fields [of s8] 6 7 8 9 s5 by simp_all
  let ?a1 = "case ifs of None \<Rightarrow> [] | Some tbl \<Rightarrow> member_attributes tbl [1..<ic + 1]"
  let ?a2 = "case fs of None \<Rightarrow> [] | Some tbl \<Rightarrow> member_attributes tbl [1..<fc + 1]"
  let ?a3 = "case ms of None \<Rightarrow> [] | Some tbl \<Rightarrow> member_attributes tbl [1..<mc + 1]"
  let ?a4 = "case cas of None \<Rightarrow> [] | Some attrs \<Rightarrow> snd attrs"
  have s10: "i_am_code s10 = ?c" "run_code s10 = code_bytes ?c ?a1"
    using when_count_get_info [OF 10] s9 by simp_all
  have s11: "i_am_code s11 = ?c" "run_code s11 = code_bytes ?c ?a1"
    using get_u2_int_fields [of s10] 11 s10 by simp_all
  have s12: "i_am_code s12 = ?c" "run_code s12 = code_bytes ?c (?a1 @ ?a2)"
    using when_count_get_info [OF 12] s11 by simp_all
  have s13: "i_am_code s13 = ?c" "run_code s13 = code_bytes ?c (?a1 @ ?a2)"
    using get_u2_int_fields [of s12] 13 s12 by simp_all
  have s14: "i_am_code s14 = ?c" "run_code s14 = code_bytes ?c (?a1 @ ?a2 @ ?a3)"
    using when_count_get_info [OF 14] s13 by simp_all
  have s15: "i_am_code s15 = ?c" "run_code s15 = code_bytes ?c (?a1 @ ?a2 @ ?a3)"
    using get_u2_int_fields [of s14] 15 s14 by simp_all
  have s16: "i_am_code s16 = ?c" "run_code s16 = code_bytes ?c (?a1 @ ?a2 @ ?a3 @ ?a4)"
    using when_count_get_attributes [OF 16] s15 by simp_all
  have "all_attributes cf = ?a1 @ ?a2 @ ?a3 @ ?a4"
    unfolding all_attributes_def cf by (rule refl)
  then show ?thesis
    using s16 cf by simp
qed

text \<open>
  C10. \<^verbatim>\<open>__init__\<close> starts with the \<^verbatim>\<open>"Code"\<close> index 0. A pass of the pool loop at bytes
  that are read as \<^verbatim>\<open>Utf8 "Code"\<close> stores that constant at the index of the pass and sets
  the \<^verbatim>\<open>"Code"\<close> index to it; a pass that returns from other bytes stores another constant
  and leaves the \<^verbatim>\<open>"Code"\<close> index as it was. So when \<^verbatim>\<open>__init__\<close> returns, the
  \<^verbatim>\<open>"Code"\<close> index is 0 if no index of the pool holds \<^verbatim>\<open>Utf8 "Code"\<close>, and the last such
  index otherwise. \<^verbatim>\<open>get_an_attribute\<close> takes the name index from the two bytes at the
  offset and the length from the next four, and appends the bytes of the attribute to the
  accumulator exactly when the name index is the \<^verbatim>\<open>"Code"\<close> index; after \<^verbatim>\<open>__init__\<close> the
  accumulator holds, in the order read, the bytes of exactly those attributes of the class
  file. Without a \<^verbatim>\<open>Utf8 "Code"\<close> in the pool these are the attributes with the name
  index 0.
\<close>

theorem C10_code_sentinel:
  "(code_entry_at s \<longrightarrow>
      (\<exists>s'. pool_body index (pool, s)
               = Inr (index, pool(index \<mapsto> Entry (Utf8 Code_text)), s')
             \<and> i_am_code s' = index))
   \<and> (pool_body index (pool, s) = Inr (index', pool', s1) \<longrightarrow>
        (pool' index = Some (Entry (Utf8 Code_text)) \<longleftrightarrow> code_entry_at s)
        \<and> i_am_code s1 = (if code_entry_at s then index else i_am_code s))
   \<and> (ClassFile_init bytes = Inr cf \<longrightarrow>
        i_am_code cf =
           (if code_indices (constant_pool cf) (pool_count cf) = [] then 0
            else last (code_indices (constant_pool cf) (pool_count cf)))
        \<and> run_code cf = code_bytes (i_am_code cf) (all_attributes cf))
   \<and> attr_name_index (fst (get_an_attribute r))
        = from_bytes (take 2 (drop (offset r) (data r)))
   \<and> attr_length (fst (get_an_attribute r))
        = from_bytes (take 4 (drop (offset r + 2) (data r)))
   \<and> (attr_length (fst (get_an_attribute r)) \<noteq> 0 \<longrightarrow>
        attr_info (fst (get_an_attribute r))
          = take (attr_length (fst (get_an_attribute r))) (drop (offset r + 6) (data r)))
   \<and> run_code (snd (get_an_attribute r))
        = run_code r @ (if attr_name_index (fst (get_an_attribute r)) = i_am_code r
                        then attr_info (fst (get_an_attribute r)) else [])"
  using pool_body_at_code [of s index pool]
    pool_body_code_entry [of index pool s index' pool' s1]
    ClassFile_init_code [of bytes cf]
    get_an_attribute_values [of r] get_an_attribute_fields(3) [of r]
  by blast

text \<open>
  Instances. \<open>no_code_class\<close> has no \<^verbatim>\<open>Utf8 "Code"\<close> in its pool and one class attribute
  with the name index 0, whose two bytes end up in the accumulator. \<open>two_code_class\<close> has
  \<^verbatim>\<open>Utf8 "Code"\<close> at the indices 1 and 2: the \<^verbatim>\<open>"Code"\<close> index is 2, and the accumulator
  holds the bytes of the two attributes with the name index 2 and not those of the
  attribute with the name index 1. The first pass of the pool loop on \<open>two_code_class\<close>
  is at bytes read as \<^verbatim>\<open>Utf8 "Code"\<close>.
\<close>

theorem C10_code_sentinel_witness:
  "(\<exists>cf. ClassFile_init no_code_class = Inr cf
      \<and> code_indices (constant_pool cf) (pool_count cf) = []
      \<and> i_am_code cf = 0
      \<and> all_attributes cf
          = [\<lparr>attr_name_index = 0, attr_length = 2, attr_info = [0xAB, 0xCD]\<rparr>]
      \<and> run_code cf = [0xAB, 0xCD])
   \<and> (\<exists>cf. ClassFile_init two_code_class = Inr cf
      \<and> code_indices (constant_pool cf) (pool_count cf) = [1, 2]
      \<and> i_am_code cf = 2
      \<and> all_attributes cf
          = [\<lparr>attr_name_index = 1, attr_length = 2, attr_info = [0x11, 0x22]\<rparr>,
             \<lparr>attr_name_index = 2, attr_length = 3, attr_info = [1, 2, 3]\<rparr>,
             \<lparr>attr_name_index = 2, attr_length = 1, attr_info = [0x2A]\<rparr>]
      \<and> run_code cf = [1, 2, 3, 0x2A])
   \<and> code_entry_at \<lparr>data = two_code_class, offset = 10, i_am_code = 0, run_code = []\<rparr>
   \<and> (\<exists>s'. pool_body 1 (Map.empty(0 \<mapsto> PoolCount 3),
                \<lparr>data = two_code_class, offset = 10, i_am_code = 0, run_code = []\<rparr>)
          = Inr (1, Map.empty(0 \<mapsto> PoolCount 3, 1 \<mapsto> Entry (Utf8 Code_text)), s')
        \<and> i_am_code s' = 1)
   \<and> run_code (snd (get_an_attribute
         \<lparr>data = no_code_class, offset = 28, i_am_code = 0, run_code = []\<rparr>))
       = [0xAB, 0xCD]"
proof -
  have "\<exists>cf. ClassFile_init no_code_class = Inr cf
     \<and> pool_count cf = 2
     \<and> constant_pool cf 1 = Some (Entry (Utf8 [65]))
     \<and> interfaces cf = None \<and> fields_info cf = None \<and> methods cf = None
     \<and> class_attributes cf
         = Some (8, [\<lparr>attr_name_index = 0, attr_length = 2, attr_info = [0xAB, 0xCD]\<rparr>])"
    by (simp add: no_code_class_def decode_defs reader_defs)
  then obtain cf where cf: "ClassFile_init no_code_class = Inr cf"
    "pool_count cf = 2" "constant_pool cf 1 = Some (Entry (Utf8 [65]))"
    "interfaces cf = None" "fields_info cf = None" "methods cf = None"
    "class_attributes cf
       = Some (8, [\<lparr>attr_name_index = 0, attr_length = 2, attr_info = [0xAB, 0xCD]\<rparr>])"
    by blast
  have none: "code_indices (constant_pool cf) (pool_count cf) = []"
    using cf(2,3) by (simp add: code_indices_def Code_text_def upt_rec)
  have attrs: "all_attributes cf
      = [\<lparr>attr_name_index = 0, attr_length = 2, attr_info = [0xAB, 0xCD]\<rparr>]"
    using cf(4-7) by (simp add: all_attributes_def)
  from C10_code_sentinel [where bytes = no_code_class and cf = cf] cf(1) none attrs
  have "i_am_code cf = 0" "run_code cf = [0xAB, 0xCD]"
    by (simp_all add: code_bytes_def)
  with cf(1) none attrs have first: "\<exists>cf. ClassFile_init no_code_class = Inr cf
      \<and> code_indices (constant_pool cf) (pool_count cf) = []
      \<and> i_am_code cf = 0
      \<and> all_attributes cf
          = [\<lparr>attr_name_index = 0, attr_length = 2, attr_info = [0xAB, 0xCD]\<rparr>]
      \<and> run_code cf = [0xAB, 0xCD]"
    by blast
  let ?m = "\<lparr>m_access_flags = [0, 1], m_name_index = 1, m_descriptor_index = 1,
             m_attributes_count = 2,
             m_attributes =
               (17, [\<lparr>attr_name_index = 1, attr_length = 2, attr_info = [0x11, 0x22]\<rparr>,
                     \<lparr>attr_name_index = 2, attr_length = 3, attr_info = [1, 2, 3]\<rparr>])\<rparr>"
  have "\<exists>cf tbl. ClassFile_init two_code_class = Inr cf
     \<and> pool_count cf = 3
     \<and> constant_pool cf 1 = Some (Entry (Utf8 Code_text))
     \<and> constant_pool cf 2 = Some (Entry (Utf8 Code_text))
     \<and> interfaces cf = None \<and> fields_info cf = None
     \<and> methods_count cf = 1 \<and> methods cf = Some tbl \<and> tbl 1 = Some (Member ?m)
     \<and> class_attributes cf
         = Some (7, [\<lparr>attr_name_index = 2, attr_length = 1, attr_info = [0x2A]\<rparr>])"
    by (simp add: two_code_class_def decode_defs reader_defs)
  then obtain cf2 tbl where cf2: "ClassFile_init two_code_class = Inr cf2"
    "pool_count cf2 = 3"
    "constant_pool cf2 1 = Some (Entry (Utf8 Code_text))"
    "constant_pool cf2 2 = Some (Entry (Utf8 Code_text))"
    "interfaces cf2 = None" "fields_info cf2 = None"
    "methods_count cf2 = 1" "methods cf2 = Some tbl" "tbl 1 = Some (Member ?m)"
    "class_attributes cf2
       = Some (7, [\<lparr>attr_name_index = 2, attr_length = 1, attr_info = [0x2A]\<rparr>])"
    by blast
  have at_2: "constant_pool cf2 (Suc (Suc 0)) = Some (Entry (Utf8 Code_text))"
    using cf2(4) by (simp add: numeral_2_eq_2)
  have both: "code_indices (constant_pool cf2) (pool_count cf2) = [1, 2]"
    using cf2(2,3) at_2 by (simp add: code_indices_def upt_rec)
  have attrs2: "all_attributes cf2
      = [\<lparr>attr_name_index = 1, attr_length = 2, attr_info = [0x11, 0x22]\<rparr>,
         \<lparr>attr_name_index = 2, attr_length = 3, attr_info = [1, 2, 3]\<rparr>,
         \<lparr>attr_name_index = 2, attr_length = 1, attr_info = [0x2A]\<rparr>]"
    using cf2(5-10) by (simp add: all_attributes_def member_attributes_def upt_rec)
  from C10_code_sentinel [where bytes = two_code_class and cf = cf2] cf2(1) both attrs2
  have "i_am_code cf2 = 2" "run_code cf2 = [1, 2, 3, 0x2A]"
    by (simp_all add: code_bytes_def)
  with cf2(1) both attrs2 have second: "\<exists>cf. ClassFile_init two_code_class = Inr cf
      \<and> code_indices (constant_pool cf) (pool_count cf) = [1, 2]
      \<and> i_am_code cf = 2
      \<and> all_attributes cf
          = [\<lparr>attr_name_index = 1, attr_length = 2, attr_info = [0x11, 0x22]\<rparr>,
             \<lparr>attr_name_index = 2, attr_length = 3, attr_info = [1, 2, 3]\<rparr>,
             \<lparr>attr_name_index = 2, attr_length = 1, attr_info = [0x2A]\<rparr>]
      \<and> run_code cf = [1, 2, 3, 0x2A]"
    by blast
  let ?s = "\<lparr>data = two_code_class, offset = 10, i_am_code = 0, run_code = []\<rparr>"
  have at: "code_entry_at ?s"
    by (simp add: code_entry_at_def two_code_class_def from_bytes_def)
  from C10_code_sentinel [where s = ?s and index = 1
      and pool = "Map.empty(0 \<mapsto> PoolCount 3)"] at
  have pass: "\<exists>s'. pool_body 1 (Map.empty(0 \<mapsto> PoolCount 3), ?s)
          = Inr (1, Map.empty(0 \<mapsto> PoolCount 3, 1 \<mapsto> Entry (Utf8 Code_text)), s')
        \<and> i_am_code s' = 1"
    by blast
  let ?r = "\<lparr>data = no_code_class, offset = 28, i_am_code = 0, run_code = []\<rparr>"
  have r: "from_bytes (take 2 (drop (offset ?r) (data ?r))) = 0"
    "from_bytes (take 4 (drop (offset ?r + 2) (data ?r))) = 2"
    "take 2 (drop (offset ?r + 6) (data ?r)) = [0xAB, 0xCD]"
    by (simp_all add: no_code_class_def from_bytes_def)
  from C10_code_sentinel [where r = ?r] r
  have app: "run_code (snd (get_an_attribute ?r)) = [0xAB, 0xCD]"
    by simp
  from first second at pass app show ?thesis
    by blast
qed

end
